theory Spec2Isabelle
  imports Complex_Main
begin

section \<open>Data model\<close>

text \<open>
  The planner-input synthesis of \<^verbatim>\<open>queries.py\<close> (numeric variant) and
  \<^verbatim>\<open>queries_cplex.py\<close> (timestamp variant), as pure functions of the rows
  that the SQL statements return. A function of \<^verbatim>\<open>queries_cplex.py\<close> that has a
  namesake in \<^verbatim>\<open>queries.py\<close> carries the suffix \<open>_cplex\<close>.

  \<^item> A \<^verbatim>\<open>datetime\<close> is its count of microseconds since the epoch (Python's own
    resolution); all of them are in UTC, and the range of years is not limited, so adding
    a \<^verbatim>\<open>timedelta\<close> never overflows.
  \<^item> A \<^verbatim>\<open>float\<close> is the rational number it denotes, and arithmetic on floats is exact.
  \<^item> A \<^verbatim>\<open>str\<close> is a list of ASCII characters; \<^verbatim>\<open>None\<close> is \<open>None\<close>.
  \<^item> A dictionary is a map, except the route table, whose items the normalizer iterates
    over: it is an association list in insertion order.
  \<^item> A row of a query result is a record whose fields are the selected columns, prefixed
    by a tag of the statement.

  Logging and debug printing are left out.
\<close>

type_synonym datetime = int

type_synonym cycle_table = "int \<rightharpoonup> (string \<rightharpoonup> (string \<rightharpoonup> rat))"

type_synonym minibatch_table = "string \<rightharpoonup> (string \<rightharpoonup> rat)"

text \<open>An entry of a product's route list: a list of workstation codes, or anything
  else (\<^verbatim>\<open>isinstance(r, list)\<close> is false).\<close>

datatype route = Route "string list" | NotAList

type_synonym bom_table = "(string \<times> route list) list"

record wo_row =
  w_id :: int
  w_work_order_number :: "string option"
  w_qty_planned :: "rat option"
  w_status :: "string option"
  w_so_number :: "string option"
  w_min_prod_time :: "datetime option"
  w_promised_delivery_utc :: "datetime option"
  w_product_id :: "int option"
  w_product_code :: "string option"

record last_bc_row =
  lbc_work_order_id :: "int option"
  lbc_last_event_time :: "datetime option"

record route_row =
  rr_product_id :: "int option"
  rr_last_process :: "int option"

record bc_row =
  bc_work_order_number :: string
  bc_workstation_code :: "string option"
  bc_route_step_index :: "int option"

record last_row =
  lr_work_order_number :: string
  lr_event_type :: "string option"

record complete_row =
  cr_work_order_number :: string
  cr_produced_qty :: "rat option"

text \<open>What the statements of \<^verbatim>\<open>load_orders\<close> return, one field per statement.\<close>

record orders_db =
  db_wo_rows :: "wo_row list"
  db_last_bc_rows :: "last_bc_row list"
  db_route_rows :: "route_row list"
  db_bc_rows :: "bc_row list"
  db_last_rows :: "last_row list"
  db_complete_rows :: "complete_row list"

text \<open>A derived order; \<open>'t\<close> is the variant's time representation (epoch seconds
  in the numeric variant, a timestamp in the other).\<close>

record 't order =
  Sales_Order :: "string option"
  Product :: "string option"
  Quantity :: rat
  Minimum_Production_Time :: 't
  Delivery_Date :: 't
  Last_Process :: "int option"
  Status :: string
  Past_Machines :: "string list"
  Currently_Running :: bool

record downtime_row =
  dr_workstation_code :: "string option"
  dr_downtime_start :: "datetime option"
  dr_downtime_end :: "datetime option"

record event_row =
  ev_work_order_number :: string
  ev_event_type :: "string option"
  ev_event_time_utc :: "datetime option"
  ev_route_step_index :: "int option"
  ev_workstation_code :: "string option"

record employee_shift =
  first_shift_end :: datetime
  day_shift_end :: string
  night_shift_end :: string
  frequency :: int

section \<open>Python primitives\<close>

definition upper_char :: "char \<Rightarrow> char" where
  "upper_char c =
    (let n = (of_char c :: nat) in if 97 \<le> n \<and> n \<le> 122 then char_of (n - 32) else c)"

definition upper :: "string \<Rightarrow> string" where
  "upper s = map upper_char s"

definition is_space :: "char \<Rightarrow> bool" where
  "is_space c = (let n = (of_char c :: nat) in (9 \<le> n \<and> n \<le> 13) \<or> (28 \<le> n \<and> n \<le> 32))"

definition strip :: "string \<Rightarrow> string" where
  "strip s = rev (dropWhile is_space (rev (dropWhile is_space s)))"

text \<open>\<^verbatim>\<open>v or ""\<close>.\<close>

definition or_empty :: "string option \<Rightarrow> string" where
  "or_empty v = (case v of None \<Rightarrow> [] | Some s \<Rightarrow> s)"

text \<open>\<^verbatim>\<open>d.get(k)\<close> where the key itself may be \<^verbatim>\<open>None\<close>, which no
  key of \<open>d\<close> is.\<close>

definition get_opt :: "('k \<rightharpoonup> 'v) \<Rightarrow> 'k option \<Rightarrow> 'v option" where
  "get_opt m k = (case k of None \<Rightarrow> None | Some k' \<Rightarrow> m k')"

text \<open>\<^verbatim>\<open>d.setdefault(k, v)\<close>: the dictionary after the call, and the value returned.\<close>

definition setdefault :: "('k \<rightharpoonup> 'v) \<Rightarrow> 'k \<Rightarrow> 'v \<Rightarrow> ('k \<rightharpoonup> 'v) \<times> 'v" where
  "setdefault m k d = (case m k of None \<Rightarrow> (m(k \<mapsto> d), d) | Some v \<Rightarrow> (m, v))"

text \<open>\<^verbatim>\<open>d.setdefault(k, []).append(w)\<close>.\<close>

definition append_window :: "('k \<rightharpoonup> 'w list) \<Rightarrow> 'k \<Rightarrow> 'w \<Rightarrow> ('k \<rightharpoonup> 'w list)" where
  "append_window d k w = (let (d1, l) = setdefault d k [] in d1(k \<mapsto> l @ [w]))"

text \<open>\<^verbatim>\<open>max(xs, default=d)\<close>.\<close>

fun py_max :: "nat list \<Rightarrow> nat \<Rightarrow> nat" where
  "py_max [] d = d"
| "py_max (x # xs) d = fold max xs x"

text \<open>\<^verbatim>\<open>dt.timestamp()\<close>: seconds since the epoch.\<close>

definition timestamp :: "datetime \<Rightarrow> rat" where
  "timestamp dt = of_int dt / 1000000"

definition US_PER_DAY :: int where
  "US_PER_DAY = 86400000000"

text \<open>\<^verbatim>\<open>dt.replace(hour=h, minute=m, second=0, microsecond=0)\<close>: the same date,
  at the given time of day.\<close>

definition replace_time :: "datetime \<Rightarrow> int \<Rightarrow> int \<Rightarrow> datetime" where
  "replace_time dt h m = (dt div US_PER_DAY) * US_PER_DAY + (h * 3600 + m * 60) * 1000000"

text \<open>Rounding to the nearest integer, ties to the even one: how \<^verbatim>\<open>timedelta\<close>
  turns a fractional count of microseconds into a whole one.\<close>

definition round_half_even :: "rat \<Rightarrow> int" where
  "round_half_even x =
    (let f = \<lfloor>x\<rfloor>; d = x - of_int f in
     if d < 1 / 2 then f
     else if 1 / 2 < d then f + 1
     else if even f then f else f + 1)"

text \<open>\<^verbatim>\<open>timedelta(minutes=x)\<close>, in microseconds.\<close>

definition timedelta_minutes :: "rat \<Rightarrow> int" where
  "timedelta_minutes x = round_half_even (x * 60000000)"

text \<open>\<^verbatim>\<open>(a - b).total_seconds()\<close>.\<close>

definition total_seconds :: "int \<Rightarrow> rat" where
  "total_seconds us = of_int us / 1000000"

text \<open>\<^verbatim>\<open>datetime(9999, 1, 1, tzinfo=timezone.utc)\<close>.\<close>

definition FAR_FUTURE :: datetime where
  "FAR_FUTURE = 253370764800000000"

section \<open>Route normalizer (queries.py)\<close>

definition list_routes :: "route list \<Rightarrow> string list list" where
  "list_routes routes = concat (map (\<lambda>r. case r of Route ws \<Rightarrow> [ws] | NotAList \<Rightarrow> []) routes)"

text \<open>The loop over \<^verbatim>\<open>enumerate(routes)\<close>: the routes after it, the padded process
  indices and whether any route was padded.\<close>

fun pad_routes ::
  "string \<Rightarrow> nat \<Rightarrow> route list \<Rightarrow> nat set \<Rightarrow> bool \<Rightarrow> route list \<times> nat set \<times> bool" where
  "pad_routes fake_ws max_len [] padded any_padding = ([], padded, any_padding)"
| "pad_routes fake_ws max_len (NotAList # rs) padded any_padding =
    (let (rs', padded', any') = pad_routes fake_ws max_len rs padded any_padding
     in (NotAList # rs', padded', any'))"
| "pad_routes fake_ws max_len (Route ws # rs) padded any_padding =
    (let orig_len = length ws in
     if orig_len \<ge> max_len then
       (let (rs', padded', any') = pad_routes fake_ws max_len rs padded any_padding
        in (Route ws # rs', padded', any'))
     else
       (let pad_n = max_len - orig_len;
            padded1 = padded \<union> {orig_len..<max_len};
            (rs', padded', any') = pad_routes fake_ws max_len rs padded1 True
        in (Route (ws @ replicate pad_n fake_ws) # rs', padded', any')))"

definition inject_minibatch :: "string \<Rightarrow> string \<Rightarrow> rat \<Rightarrow> minibatch_table \<Rightarrow> minibatch_table" where
  "inject_minibatch product_code fake_ws fake_minibatch minibatch =
    (let (minibatch1, by_ws) = setdefault minibatch product_code Map.empty;
         (by_ws1, _) = setdefault by_ws fake_ws fake_minibatch
     in minibatch1(product_code \<mapsto> by_ws1))"

definition inject_cycle :: "string \<Rightarrow> string \<Rightarrow> rat \<Rightarrow> int \<Rightarrow> cycle_table \<Rightarrow> cycle_table" where
  "inject_cycle product_code fake_ws fake_cycle_model process_idx cycle =
    (let (cycle1, by_product) = setdefault cycle process_idx Map.empty;
         (by_product1, by_ws) = setdefault by_product product_code Map.empty;
         (by_ws1, _) = setdefault by_ws fake_ws fake_cycle_model
     in cycle1(process_idx \<mapsto> by_product1(product_code \<mapsto> by_ws1)))"

text \<open>The body of the loop over \<^verbatim>\<open>bom_data.items()\<close>, for one product.\<close>

definition pad_product ::
  "string \<Rightarrow> rat \<Rightarrow> rat \<Rightarrow> string \<Rightarrow> route list \<Rightarrow> cycle_table \<Rightarrow> minibatch_table
    \<Rightarrow> route list \<times> cycle_table \<times> minibatch_table" where
  "pad_product fake_ws fake_cycle_model fake_minibatch product_code routes cycle minibatch =
    (if routes = [] then (routes, cycle, minibatch)
     else if list_routes routes = [] then (routes, cycle, minibatch)
     else
       (let lengths = map length (list_routes routes);
            max_len = py_max lengths 0 in
        if max_len \<le> 0 then (routes, cycle, minibatch)
        else
          (let (routes', padded_process_indices, any_padding_for_product) =
                 pad_routes fake_ws max_len routes {} False in
           if \<not> any_padding_for_product then (routes', cycle, minibatch)
           else
             (routes',
              fold (inject_cycle product_code fake_ws fake_cycle_model)
                (map int (sorted_list_of_set padded_process_indices)) cycle,
              inject_minibatch product_code fake_ws fake_minibatch minibatch))))"

fun pad_products ::
  "string \<Rightarrow> rat \<Rightarrow> rat \<Rightarrow> bom_table \<Rightarrow> cycle_table \<Rightarrow> minibatch_table
    \<Rightarrow> bom_table \<times> cycle_table \<times> minibatch_table" where
  "pad_products fake_ws fake_cycle_model fake_minibatch [] cycle minibatch = ([], cycle, minibatch)"
| "pad_products fake_ws fake_cycle_model fake_minibatch ((product_code, routes) # rest) cycle minibatch =
    (let (routes', cycle1, minibatch1) =
           pad_product fake_ws fake_cycle_model fake_minibatch product_code routes cycle minibatch;
         (rest', cycle2, minibatch2) =
           pad_products fake_ws fake_cycle_model fake_minibatch rest cycle1 minibatch1
     in ((product_code, routes') # rest', cycle2, minibatch2))"

text \<open>The function mutates its three arguments in place; the model returns them.\<close>

definition pad_boms_and_inject_fake_defaults_sparse ::
  "cycle_table \<Rightarrow> minibatch_table \<Rightarrow> bom_table \<Rightarrow> string \<Rightarrow> rat \<Rightarrow> rat
    \<Rightarrow> cycle_table \<times> minibatch_table \<times> bom_table" where
  "pad_boms_and_inject_fake_defaults_sparse cycle minibatch bom_data fake_ws fake_cycle_model fake_minibatch =
    (if bom_data = [] then (cycle, minibatch, bom_data)
     else
       (let (bom_data', cycle', minibatch') =
              pad_products fake_ws fake_cycle_model fake_minibatch bom_data cycle minibatch
        in (cycle', minibatch', bom_data')))"

text \<open>Reading the nested tables.\<close>

definition cycle_lookup :: "cycle_table \<Rightarrow> int \<Rightarrow> string \<Rightarrow> string \<Rightarrow> rat option" where
  "cycle_lookup cycle process_idx product ws =
    (case cycle process_idx of None \<Rightarrow> None
     | Some by_product \<Rightarrow> (case by_product product of None \<Rightarrow> None | Some by_ws \<Rightarrow> by_ws ws))"

definition minibatch_lookup :: "minibatch_table \<Rightarrow> string \<Rightarrow> string \<Rightarrow> rat option" where
  "minibatch_lookup minibatch product ws =
    (case minibatch product of None \<Rightarrow> None | Some by_ws \<Rightarrow> by_ws ws)"

section \<open>Order state reconciler, numeric variant (queries.py)\<close>

definition by_id_of :: "wo_row list \<Rightarrow> (int \<rightharpoonup> wo_row)" where
  "by_id_of rows = fold (\<lambda>d by_id. by_id(w_id d \<mapsto> d)) rows Map.empty"

definition wo_numbers_of :: "wo_row list \<Rightarrow> string list" where
  "wo_numbers_of rows =
    concat (map (\<lambda>d. case w_work_order_number d of
                        None \<Rightarrow> []
                      | Some n \<Rightarrow> if n = [] then [] else [n]) rows)"

definition latest_barcode_time_by_wo_id :: "last_bc_row list \<Rightarrow> (int \<rightharpoonup> rat)" where
  "latest_barcode_time_by_wo_id rows =
    fold (\<lambda>row m. case (lbc_work_order_id row, lbc_last_event_time row) of
                     (Some wo_id, Some dt) \<Rightarrow> m(wo_id \<mapsto> timestamp dt)
                   | _ \<Rightarrow> m) rows Map.empty"

definition last_process_by_product :: "int set \<Rightarrow> route_row list \<Rightarrow> (int \<rightharpoonup> int)" where
  "last_process_by_product product_ids rows =
    (if product_ids = {} then Map.empty
     else fold (\<lambda>row m. case (rr_product_id row, rr_last_process row) of
                          (Some pid, Some last_proc) \<Rightarrow> m(pid \<mapsto> last_proc - 1)
                        | _ \<Rightarrow> m) rows Map.empty)"

definition past_machines_by_wo :: "string list \<Rightarrow> bc_row list \<Rightarrow> (string \<rightharpoonup> string list)" where
  "past_machines_by_wo wo_numbers rows =
    (if wo_numbers = [] then Map.empty
     else fold (\<lambda>row m. case (bc_workstation_code row, bc_route_step_index row) of
                          (Some ws, Some step) \<Rightarrow>
                            (let n_empty = max 0 (step - 1)
                             in m(bc_work_order_number row \<mapsto> replicate (nat n_empty) ''EMPTY'' @ [ws]))
                        | _ \<Rightarrow> m(bc_work_order_number row \<mapsto> [])) rows Map.empty)"

definition last_event_by_wo :: "string list \<Rightarrow> last_row list \<Rightarrow> (string \<rightharpoonup> string)" where
  "last_event_by_wo wo_numbers rows =
    (if wo_numbers = [] then Map.empty
     else fold (\<lambda>row m. m(lr_work_order_number row \<mapsto> upper (or_empty (lr_event_type row))))
            rows Map.empty)"

text \<open>The body of the loop over \<^verbatim>\<open>work_order_ids\<close>, for a work order that has a row.\<close>

definition order_entry ::
  "(int \<rightharpoonup> rat) \<Rightarrow> (int \<rightharpoonup> int) \<Rightarrow> (string \<rightharpoonup> string list) \<Rightarrow> (string \<rightharpoonup> string)
    \<Rightarrow> int \<Rightarrow> wo_row \<Rightarrow> rat order" where
  "order_entry latest_time last_proc past_by_wo last_ev wo_id base =
    (let wo_num = w_work_order_number base;
         qty = (case w_qty_planned base of Some q \<Rightarrow> q | None \<Rightarrow> 0);
         wo_status = upper (strip (or_empty (w_status base)));
         min_prod_time0 = (case w_min_prod_time base of Some dt \<Rightarrow> timestamp dt | None \<Rightarrow> 0);
         min_prod_time =
           (if wo_status = ''IN_PROGRESS''
            then (case latest_time wo_id of Some bc_ts \<Rightarrow> bc_ts | None \<Rightarrow> min_prod_time0)
            else min_prod_time0);
         delivery_ts =
           (case w_promised_delivery_utc base of Some dt \<Rightarrow> timestamp dt | None \<Rightarrow> 10 ^ 12);
         last_process = get_opt last_proc (w_product_id base);
         past_machines = (case get_opt past_by_wo wo_num of Some l \<Rightarrow> l | None \<Rightarrow> []);
         progress =
           (if wo_status = ''IN_PROGRESS'' \<and> past_machines = [] then ''NOT_STARTED'' else wo_status);
         currently_running =
           (progress = ''IN_PROGRESS'' \<and> get_opt last_ev wo_num = Some ''START'')
     in \<lparr> Sales_Order = w_so_number base, Product = w_product_code base, Quantity = qty,
          Minimum_Production_Time = min_prod_time, Delivery_Date = delivery_ts,
          Last_Process = last_process, Status = progress, Past_Machines = past_machines,
          Currently_Running = currently_running \<rparr>)"

definition load_orders :: "orders_db \<Rightarrow> int list \<Rightarrow> int set \<Rightarrow> (string option \<rightharpoonup> rat order)" where
  "load_orders db work_order_ids product_ids =
    (if work_order_ids = [] then Map.empty
     else
       (let latest_time = latest_barcode_time_by_wo_id (db_last_bc_rows db);
            by_id = by_id_of (db_wo_rows db);
            wo_numbers = wo_numbers_of (db_wo_rows db);
            last_proc = last_process_by_product product_ids (db_route_rows db);
            past_by_wo = past_machines_by_wo wo_numbers (db_bc_rows db);
            last_ev = last_event_by_wo wo_numbers (db_last_rows db)
        in fold (\<lambda>wo_id orders.
                   case by_id wo_id of
                     None \<Rightarrow> orders
                   | Some base \<Rightarrow>
                       orders(w_work_order_number base \<mapsto>
                         order_entry latest_time last_proc past_by_wo last_ev wo_id base))
             work_order_ids Map.empty))"

section \<open>Downtime loader, numeric variant (queries.py)\<close>

definition load_downtimes_row ::
  "datetime \<Rightarrow> downtime_row \<Rightarrow> (string option \<rightharpoonup> (rat \<times> rat) list)
    \<Rightarrow> (string option \<rightharpoonup> (rat \<times> rat) list)" where
  "load_downtimes_row now row downtimes =
    (case (dr_downtime_start row, dr_downtime_end row) of
       (Some start_dt, Some end_dt) \<Rightarrow>
         if end_dt < now then downtimes
         else append_window downtimes (dr_workstation_code row) (timestamp start_dt, timestamp end_dt)
     | _ \<Rightarrow> downtimes)"

definition load_downtimes :: "datetime \<Rightarrow> downtime_row list \<Rightarrow> (string option \<rightharpoonup> (rat \<times> rat) list)" where
  "load_downtimes now rows = fold (load_downtimes_row now) rows Map.empty"

section \<open>Shift boundary (queries_cplex.py)\<close>

definition build_employee_shift :: "datetime \<Rightarrow> employee_shift" where
  "build_employee_shift present_time =
    (let day_end = replace_time present_time 19 30;
         night_end = replace_time present_time 7 30;
         fse = (if present_time \<le> night_end then night_end
                else if present_time \<le> day_end then day_end
                else night_end + US_PER_DAY)
     in \<lparr> first_shift_end = fse, day_shift_end = ''19:30'', night_shift_end = ''07:30'',
          frequency = 720 \<rparr>)"

text \<open>A daily shift boundary: an instant whose time of day is 07:30 or 19:30.\<close>

definition is_shift_boundary :: "datetime \<Rightarrow> bool" where
  "is_shift_boundary b = (b mod US_PER_DAY = 27000000000 \<or> b mod US_PER_DAY = 70200000000)"

section \<open>Order state reconciler, timestamp variant (queries_cplex.py)\<close>

text \<open>\<^verbatim>\<open>_isoformat\<close> renders a timestamp as text, one timestamp one text; the model
  keeps the timestamp.\<close>

definition latest_event_time_by_wo_id :: "last_bc_row list \<Rightarrow> (int \<rightharpoonup> datetime)" where
  "latest_event_time_by_wo_id rows =
    fold (\<lambda>row m. case (lbc_work_order_id row, lbc_last_event_time row) of
                     (Some wo_id, Some dt) \<Rightarrow> m(wo_id \<mapsto> dt)
                   | _ \<Rightarrow> m) rows Map.empty"

definition last_complete_qty_by_wo :: "string list \<Rightarrow> complete_row list \<Rightarrow> (string \<rightharpoonup> rat)" where
  "last_complete_qty_by_wo wo_numbers rows =
    (if wo_numbers = [] then Map.empty
     else fold (\<lambda>row m. case cr_produced_qty row of
                          Some qty \<Rightarrow> m(cr_work_order_number row \<mapsto> qty)
                        | None \<Rightarrow> m) rows Map.empty)"

definition order_entry_cplex ::
  "datetime \<Rightarrow> (int \<rightharpoonup> datetime) \<Rightarrow> (int \<rightharpoonup> int) \<Rightarrow> (string \<rightharpoonup> string list)
    \<Rightarrow> (string \<rightharpoonup> string) \<Rightarrow> (string \<rightharpoonup> rat) \<Rightarrow> int \<Rightarrow> wo_row \<Rightarrow> datetime order" where
  "order_entry_cplex present_time latest_time last_proc past_by_wo last_ev last_complete wo_id base =
    (let wo_num = w_work_order_number base;
         qty_planned = (case w_qty_planned base of Some q \<Rightarrow> q | None \<Rightarrow> 0);
         status = upper (or_empty (w_status base));
         min_prod_time0 = w_min_prod_time base;
         min_prod_time1 =
           (if status = ''IN_PROGRESS''
            then (case latest_time wo_id of Some latest_dt \<Rightarrow> Some latest_dt | None \<Rightarrow> min_prod_time0)
            else min_prod_time0);
         min_prod_time =
           (case min_prod_time1 of
              None \<Rightarrow> present_time
            | Some t \<Rightarrow> if t < present_time \<and> status \<noteq> ''IN_PROGRESS'' then present_time else t);
         delivery_dt =
           (case w_promised_delivery_utc base of Some dt \<Rightarrow> dt | None \<Rightarrow> FAR_FUTURE);
         last_process = get_opt last_proc (w_product_id base);
         past_machines = (case get_opt past_by_wo wo_num of Some l \<Rightarrow> l | None \<Rightarrow> []);
         progress0 = (if status = [] then ''NOT_STARTED'' else status);
         progress =
           (if progress0 = ''IN_PROGRESS'' \<and> past_machines = [] then ''NOT_STARTED'' else progress0);
         last_event_type = get_opt last_ev wo_num;
         currently_running = (progress = ''IN_PROGRESS'' \<and> last_event_type = Some ''START'');
         qty =
           (if progress = ''IN_PROGRESS''
            then (case get_opt last_complete wo_num of Some q \<Rightarrow> q | None \<Rightarrow> qty_planned)
            else qty_planned)
     in \<lparr> Sales_Order = w_so_number base, Product = w_product_code base, Quantity = qty,
          Minimum_Production_Time = min_prod_time, Delivery_Date = delivery_dt,
          Last_Process = last_process, Status = progress, Past_Machines = past_machines,
          Currently_Running = currently_running \<rparr>)"

definition load_orders_cplex ::
  "orders_db \<Rightarrow> int list \<Rightarrow> int set \<Rightarrow> datetime \<Rightarrow> (string option \<rightharpoonup> datetime order)" where
  "load_orders_cplex db work_order_ids product_ids present_time =
    (if work_order_ids = [] then Map.empty
     else
       (let latest_time = latest_event_time_by_wo_id (db_last_bc_rows db);
            by_id = by_id_of (db_wo_rows db);
            wo_numbers = wo_numbers_of (db_wo_rows db);
            last_proc = last_process_by_product product_ids (db_route_rows db);
            past_by_wo = past_machines_by_wo wo_numbers (db_bc_rows db);
            last_ev = last_event_by_wo wo_numbers (db_last_rows db);
            last_complete = last_complete_qty_by_wo wo_numbers (db_complete_rows db)
        in fold (\<lambda>wo_id orders.
                   case by_id wo_id of
                     None \<Rightarrow> orders
                   | Some base \<Rightarrow>
                       orders(w_work_order_number base \<mapsto>
                         order_entry_cplex present_time latest_time last_proc past_by_wo last_ev
                           last_complete wo_id base))
             work_order_ids Map.empty))"

section \<open>Downtime deriver, timestamp variant (queries_cplex.py)\<close>

text \<open>The body of the loop of \<^verbatim>\<open>_append_running_job_downtimes\<close>. An order's
  \<^verbatim>\<open>Quantity\<close> is a float, so \<^verbatim>\<open>float(qty) * float(cycle_time)\<close> does not
  raise; a work order with no entry in \<open>orders\<close> has neither product nor quantity.\<close>

definition append_running_job_row ::
  "datetime \<Rightarrow> (string option \<rightharpoonup> datetime order) \<Rightarrow> cycle_table \<Rightarrow> event_row
    \<Rightarrow> (string option \<rightharpoonup> (datetime \<times> datetime) list)
    \<Rightarrow> (string option \<rightharpoonup> (datetime \<times> datetime) list)" where
  "append_running_job_row present_time orders cycle row downtimes =
    (let wo_num = ev_work_order_number row;
         event_type = upper (or_empty (ev_event_type row))
     in case (ev_workstation_code row, ev_event_time_utc row) of
          (Some ws_code, Some start_dt) \<Rightarrow>
            if event_type \<noteq> ''START'' \<or> ws_code = [] then downtimes
            else
              (case orders (Some wo_num) of
                 None \<Rightarrow> downtimes
               | Some order \<Rightarrow>
                   (case Product order of
                      None \<Rightarrow> downtimes
                    | Some product_code \<Rightarrow>
                        (case ev_route_step_index row of
                           None \<Rightarrow> downtimes
                         | Some route_step_index \<Rightarrow>
                             (let proc_idx = route_step_index - 1 in
                              case cycle_lookup cycle proc_idx product_code ws_code of
                                None \<Rightarrow> downtimes
                              | Some cycle_time \<Rightarrow>
                                  (let expected_minutes = Quantity order * cycle_time;
                                       running_minutes =
                                         max 0 (total_seconds (present_time - start_dt) / 60);
                                       time_left_minutes = expected_minutes - running_minutes
                                   in if time_left_minutes \<le> 0 then downtimes
                                      else
                                        (let end_dt = present_time + timedelta_minutes time_left_minutes
                                         in append_window downtimes (Some ws_code)
                                              (present_time, end_dt)))))))
        | _ \<Rightarrow> downtimes)"

definition append_running_job_downtimes ::
  "datetime \<Rightarrow> (string option \<rightharpoonup> datetime order) \<Rightarrow> cycle_table \<Rightarrow> event_row list
    \<Rightarrow> (string option \<rightharpoonup> (datetime \<times> datetime) list)
    \<Rightarrow> (string option \<rightharpoonup> (datetime \<times> datetime) list)" where
  "append_running_job_downtimes present_time orders cycle rows downtimes =
    (if orders = Map.empty then downtimes
     else fold (append_running_job_row present_time orders cycle) rows downtimes)"

definition load_downtimes_cplex_row ::
  "datetime \<Rightarrow> downtime_row \<Rightarrow> (string option \<rightharpoonup> (datetime \<times> datetime) list)
    \<Rightarrow> (string option \<rightharpoonup> (datetime \<times> datetime) list)" where
  "load_downtimes_cplex_row present_time row downtimes =
    (case (dr_downtime_start row, dr_downtime_end row) of
       (Some start_dt, Some end_dt) \<Rightarrow>
         if end_dt < present_time then downtimes
         else if start_dt < present_time then downtimes
         else append_window downtimes (dr_workstation_code row) (start_dt, end_dt)
     | _ \<Rightarrow> downtimes)"

text \<open>\<open>rows\<close> are the downtime records, \<open>event_rows\<close> the most recent scan event of
  each work order of \<open>orders\<close>.\<close>

definition load_downtimes_cplex ::
  "datetime \<Rightarrow> (string option \<rightharpoonup> datetime order) \<Rightarrow> cycle_table \<Rightarrow> downtime_row list
    \<Rightarrow> event_row list \<Rightarrow> (string option \<rightharpoonup> (datetime \<times> datetime) list)" where
  "load_downtimes_cplex present_time orders cycle rows event_rows =
    append_running_job_downtimes present_time orders cycle event_rows
      (fold (load_downtimes_cplex_row present_time) rows Map.empty)"

section \<open>Notions used in the statements and proofs\<close>

text \<open>A route padded up to a length: a shorter one gets the sentinel appended, any
  other entry stays.\<close>

definition pad_to :: "string \<Rightarrow> nat \<Rightarrow> route \<Rightarrow> route" where
  "pad_to fake_ws max_len r =
    (case r of Route ws \<Rightarrow> Route (ws @ replicate (max_len - length ws) fake_ws) | NotAList \<Rightarrow> NotAList)"

definition short_routes :: "nat \<Rightarrow> route list \<Rightarrow> string list set" where
  "short_routes max_len rs = {ws. Route ws \<in> set rs \<and> length ws < max_len}"

text \<open>\<^verbatim>\<open>max_len\<close> as the normalizer computes it for a product's routes.\<close>

definition max_route_len :: "route list \<Rightarrow> nat" where
  "max_route_len routes = py_max (map length (list_routes routes)) 0"

text \<open>Some route is padded at process index \<open>i\<close>; some route is padded at all.\<close>

definition padded_at :: "route list \<Rightarrow> int \<Rightarrow> bool" where
  "padded_at routes i =
    (\<exists>ws. Route ws \<in> set routes \<and> int (length ws) \<le> i \<and> i < int (max_route_len routes))"

definition needs_padding :: "route list \<Rightarrow> bool" where
  "needs_padding routes = (\<exists>ws. Route ws \<in> set routes \<and> length ws < max_route_len routes)"

text \<open>The row that a statement of \<^verbatim>\<open>load_orders\<close> returns for a work order. Each
  statement returns one row per work order (the most recent scan event's); of several
  the loops keep the last. The statements keyed by work-order number are issued only
  when some work order has a number.\<close>

definition latest_bc_row :: "orders_db \<Rightarrow> string option \<Rightarrow> bc_row option" where
  "latest_bc_row db k =
    (case k of None \<Rightarrow> None
     | Some n \<Rightarrow> if wo_numbers_of (db_wo_rows db) = [] then None
                else find (\<lambda>row. bc_work_order_number row = n) (rev (db_bc_rows db)))"

definition latest_last_row :: "orders_db \<Rightarrow> string option \<Rightarrow> last_row option" where
  "latest_last_row db k =
    (case k of None \<Rightarrow> None
     | Some n \<Rightarrow> if wo_numbers_of (db_wo_rows db) = [] then None
                else find (\<lambda>row. lr_work_order_number row = n) (rev (db_last_rows db)))"

definition latest_event_time :: "orders_db \<Rightarrow> int \<Rightarrow> datetime option" where
  "latest_event_time db wo_id =
    (case find (\<lambda>row. lbc_work_order_id row = Some wo_id \<and> lbc_last_event_time row \<noteq> None)
            (rev (db_last_bc_rows db)) of
       None \<Rightarrow> None
     | Some row \<Rightarrow> lbc_last_event_time row)"

text \<open>Whether \<^verbatim>\<open>_append_running_job_downtimes\<close> appends a window for an event row,
  on which workstation and for which remaining time in minutes.\<close>

definition appends_window ::
  "datetime \<Rightarrow> (string option \<rightharpoonup> datetime order) \<Rightarrow> cycle_table \<Rightarrow> event_row \<Rightarrow> string \<Rightarrow> rat
    \<Rightarrow> bool" where
  "appends_window present_time orders cycle row ws remaining =
    (\<exists>start step order product ct.
        upper (or_empty (ev_event_type row)) = ''START''
      \<and> ev_workstation_code row = Some ws \<and> ws \<noteq> []
      \<and> ev_event_time_utc row = Some start
      \<and> ev_route_step_index row = Some step
      \<and> orders (Some (ev_work_order_number row)) = Some order
      \<and> Product order = Some product
      \<and> cycle_lookup cycle (step - 1) product ws = Some ct
      \<and> remaining = Quantity order * ct - max 0 (total_seconds (present_time - start) / 60)
      \<and> 0 < remaining)"

section \<open>Example data\<close>

text \<open>Three work orders of product P1. WO-1 is in progress, its most recent event a
  START at route step 2 on M7; WO-2 is in progress with no scan event; WO-3 is stored as
  not started, its most recent event a START at route step 1 on M3. Times are
  microseconds since the epoch.\<close>

definition example_db :: orders_db where
  "example_db =
    \<lparr> db_wo_rows =
        [\<lparr> w_id = 1, w_work_order_number = Some ''WO-1'', w_qty_planned = Some 120,
           w_status = Some ''IN_PROGRESS'', w_so_number = Some ''SO-1'',
           w_min_prod_time = Some 1000000000, w_promised_delivery_utc = None,
           w_product_id = Some 10, w_product_code = Some ''P1'' \<rparr>,
         \<lparr> w_id = 2, w_work_order_number = Some ''WO-2'', w_qty_planned = Some 50,
           w_status = Some ''IN_PROGRESS'', w_so_number = Some ''SO-1'',
           w_min_prod_time = None, w_promised_delivery_utc = None,
           w_product_id = Some 10, w_product_code = Some ''P1'' \<rparr>,
         \<lparr> w_id = 3, w_work_order_number = Some ''WO-3'', w_qty_planned = Some 120,
           w_status = Some ''NOT_STARTED'', w_so_number = Some ''SO-2'',
           w_min_prod_time = Some 1000000000, w_promised_delivery_utc = None,
           w_product_id = Some 10, w_product_code = Some ''P1'' \<rparr>],
      db_last_bc_rows =
        [\<lparr> lbc_work_order_id = Some 1, lbc_last_event_time = Some 5000000000 \<rparr>,
         \<lparr> lbc_work_order_id = Some 3, lbc_last_event_time = Some 5000000000 \<rparr>],
      db_route_rows = [\<lparr> rr_product_id = Some 10, rr_last_process = Some 5 \<rparr>],
      db_bc_rows =
        [\<lparr> bc_work_order_number = ''WO-1'', bc_workstation_code = Some ''M7'',
           bc_route_step_index = Some 2 \<rparr>,
         \<lparr> bc_work_order_number = ''WO-3'', bc_workstation_code = Some ''M3'',
           bc_route_step_index = Some 1 \<rparr>],
      db_last_rows =
        [\<lparr> lr_work_order_number = ''WO-1'', lr_event_type = Some ''START'' \<rparr>,
         \<lparr> lr_work_order_number = ''WO-3'', lr_event_type = Some ''START'' \<rparr>],
      db_complete_rows = [] \<rparr>"

text \<open>Two work orders that share the number WO-X. Work order 1 is in progress, with a
  scan event at 5000 s; work order 2 is not started, with the anchor 9000 s. The most
  recent event of the number is a START at route step 2 on M7.\<close>

definition example_db_shared_number :: orders_db where
  "example_db_shared_number =
    \<lparr> db_wo_rows =
        [\<lparr> w_id = 1, w_work_order_number = Some ''WO-X'', w_qty_planned = Some 120,
           w_status = Some ''IN_PROGRESS'', w_so_number = Some ''SO-1'',
           w_min_prod_time = Some 1000000000, w_promised_delivery_utc = None,
           w_product_id = Some 10, w_product_code = Some ''P1'' \<rparr>,
         \<lparr> w_id = 2, w_work_order_number = Some ''WO-X'', w_qty_planned = Some 50,
           w_status = Some ''NOT_STARTED'', w_so_number = Some ''SO-2'',
           w_min_prod_time = Some 9000000000, w_promised_delivery_utc = None,
           w_product_id = Some 10, w_product_code = Some ''P1'' \<rparr>],
      db_last_bc_rows =
        [\<lparr> lbc_work_order_id = Some 1, lbc_last_event_time = Some 5000000000 \<rparr>],
      db_route_rows = [\<lparr> rr_product_id = Some 10, rr_last_process = Some 5 \<rparr>],
      db_bc_rows =
        [\<lparr> bc_work_order_number = ''WO-X'', bc_workstation_code = Some ''M7'',
           bc_route_step_index = Some 2 \<rparr>],
      db_last_rows =
        [\<lparr> lr_work_order_number = ''WO-X'', lr_event_type = Some ''START'' \<rparr>],
      db_complete_rows = [] \<rparr>"

text \<open>A cycle table: one minute per unit of P1 at process 0 on M3 and at process 1 on M7.\<close>

definition example_cycle :: cycle_table where
  "example_cycle =
    [0 \<mapsto> [''P1'' \<mapsto> [''M3'' \<mapsto> 1]], 1 \<mapsto> [''P1'' \<mapsto> [''M7'' \<mapsto> 1]]]"

section \<open>Shift boundary: proofs\<close>

lemma day_split:
  obtains q r where "p = q * US_PER_DAY + r" "0 \<le> r" "r < US_PER_DAY"
    "p div US_PER_DAY = q" "p mod US_PER_DAY = r"
proof -
  have "p = (p div US_PER_DAY) * US_PER_DAY + p mod US_PER_DAY" by simp
  moreover have "0 \<le> p mod US_PER_DAY" "p mod US_PER_DAY < US_PER_DAY"
    by (simp_all add: US_PER_DAY_def)
  ultimately show ?thesis using that by blast
qed

lemma first_shift_end_cases:
  assumes "p div US_PER_DAY = q" "p mod US_PER_DAY = r"
  shows "first_shift_end (build_employee_shift p) = q * US_PER_DAY +
     (if r \<le> 27000000000 then 27000000000
      else if r \<le> 70200000000 then 70200000000
      else 27000000000 + US_PER_DAY)"
proof -
  have "p = q * US_PER_DAY + r" using assms by auto
  then show ?thesis
    unfolding build_employee_shift_def replace_time_def Let_def assms(1)
    by simp
qed

lemma first_shift_end_boundary: "is_shift_boundary (first_shift_end (build_employee_shift p))"
proof -
  obtain q r where qr: "p div US_PER_DAY = q" "p mod US_PER_DAY = r" by blast
  show ?thesis
    unfolding first_shift_end_cases[OF qr] is_shift_boundary_def
    by (simp add: US_PER_DAY_def)
qed

lemma first_shift_end_ge: "p \<le> first_shift_end (build_employee_shift p)"
proof -
  obtain q r where qr: "p = q * US_PER_DAY + r" "0 \<le> r" "r < US_PER_DAY"
    "p div US_PER_DAY = q" "p mod US_PER_DAY = r"
    by (rule day_split)
  show ?thesis
    unfolding first_shift_end_cases[OF qr(4,5)] using qr(1,2,3)
    by (simp add: US_PER_DAY_def)
qed

lemma first_shift_end_least:
  assumes "is_shift_boundary b" "p \<le> b"
  shows "first_shift_end (build_employee_shift p) \<le> b"
proof -
  obtain q r where qr: "p = q * US_PER_DAY + r" "0 \<le> r" "r < US_PER_DAY"
    "p div US_PER_DAY = q" "p mod US_PER_DAY = r"
    by (rule day_split)
  obtain k s where ks: "b = k * US_PER_DAY + s" "0 \<le> s" "s < US_PER_DAY"
    "b div US_PER_DAY = k" "b mod US_PER_DAY = s"
    by (rule day_split)
  have s: "s = 27000000000 \<or> s = 70200000000"
    using assms(1) ks(5) by (simp add: is_shift_boundary_def)
  have "q \<le> k"
    using assms(2) qr(4) ks(4) zdiv_mono1[of p b US_PER_DAY] by (simp add: US_PER_DAY_def)
  then consider "q = k" | "q + 1 \<le> k" by linarith
  then show ?thesis
  proof cases
    case 1
    then show ?thesis
      unfolding first_shift_end_cases[OF qr(4,5)] using qr(1,2,3) ks(1) s assms(2)
      by (auto simp add: US_PER_DAY_def)
  next
    case 2
    then have "(q + 1) * US_PER_DAY \<le> k * US_PER_DAY"
      by (intro mult_right_mono) (simp_all add: US_PER_DAY_def)
    then show ?thesis
      unfolding first_shift_end_cases[OF qr(4,5)] using qr(1,2,3) ks(1) s
      by (auto simp add: US_PER_DAY_def algebra_simps)
  qed
qed

text \<open>
  C9, as stated: the first shift end lies strictly after present time. It does not at
  1970-01-01T07:30:00Z (27000000000 microseconds after the epoch): the comparison
  \<^verbatim>\<open>present_time <= night_end\<close> selects the boundary that equals present time.
\<close>

theorem C9_first_shift_end_not_strictly_after:
  "\<not> (27000000000 < first_shift_end (build_employee_shift 27000000000))"
  by (simp add: build_employee_shift_def replace_time_def US_PER_DAY_def)

text \<open>
  C9, amended: for every present time, the first shift end is the earliest of the
  daily boundaries (07:30 and 19:30) that lies at or after present time. It is never
  before present time, and it equals present time when present time is itself a
  boundary.
\<close>

theorem C9_first_shift_end_next_boundary:
  "is_shift_boundary (first_shift_end (build_employee_shift p))
   \<and> p \<le> first_shift_end (build_employee_shift p)
   \<and> (\<forall>b. is_shift_boundary b \<and> p \<le> b \<longrightarrow> first_shift_end (build_employee_shift p) \<le> b)
   \<and> (is_shift_boundary p \<longrightarrow> first_shift_end (build_employee_shift p) = p)"
proof -
  have "first_shift_end (build_employee_shift p) = p" if "is_shift_boundary p"
    using first_shift_end_least[OF that, of p] first_shift_end_ge[of p] by simp
  then show ?thesis
    using first_shift_end_boundary first_shift_end_ge first_shift_end_least by blast
qed

theorem C9_first_shift_end_next_boundary_witness:
  "is_shift_boundary 70200000000 \<and> (27000000001::int) \<le> 70200000000
   \<and> first_shift_end (build_employee_shift 27000000001) \<le> 70200000000
   \<and> is_shift_boundary 27000000000
   \<and> first_shift_end (build_employee_shift 27000000000) = 27000000000"
proof -
  have b1: "is_shift_boundary 70200000000" and b2: "is_shift_boundary 27000000000"
    by (simp_all add: is_shift_boundary_def US_PER_DAY_def)
  have le: "(27000000001::int) \<le> 70200000000" by simp
  from C9_first_shift_end_next_boundary[of 27000000001] b1 le
  have "first_shift_end (build_employee_shift 27000000001) \<le> 70200000000" by blast
  moreover from C9_first_shift_end_next_boundary[of 27000000000] b2
  have "first_shift_end (build_employee_shift 27000000000) = 27000000000" by blast
  ultimately show ?thesis using b1 b2 le by simp
qed

section \<open>Route normalizer: proofs\<close>


lemma fold_max_ge_init: "(a::nat) \<le> fold max xs a"
proof (induction xs arbitrary: a)
  case Nil
  show ?case by simp
next
  case (Cons y ys)
  have "a \<le> max y a" by simp
  also have "max y a \<le> fold max ys (max y a)" by (rule Cons.IH)
  finally show ?case by simp
qed

lemma fold_max_ge_elem: "y \<in> set xs \<Longrightarrow> (y::nat) \<le> fold max xs a"
proof (induction xs arbitrary: a)
  case Nil
  then show ?case by simp
next
  case (Cons z zs)
  show ?case
  proof (cases "y = z")
    case True
    have "y \<le> max z a" using True by simp
    also have "max z a \<le> fold max zs (max z a)" by (rule fold_max_ge_init)
    finally show ?thesis by simp
  next
    case False
    then have "y \<in> set zs" using Cons.prems by simp
    then show ?thesis using Cons.IH by simp
  qed
qed

lemma fold_max_in: "fold max xs (a::nat) \<in> insert a (set xs)"
proof (induction xs arbitrary: a)
  case Nil
  show ?case by simp
next
  case (Cons y ys)
  have "fold max ys (max y a) \<in> insert (max y a) (set ys)" by (rule Cons.IH)
  moreover have "max y a = y \<or> max y a = a" by (simp add: max_def)
  ultimately show ?case by auto
qed

lemma py_max_Max: "xs \<noteq> [] \<Longrightarrow> py_max xs d = Max (set xs)"
proof (cases xs)
  case Nil
  assume "xs \<noteq> []"
  with Nil show ?thesis by simp
next
  case (Cons x ys)
  have "Max (set xs) = fold max ys x"
  proof (rule Max_eqI)
    show "finite (set xs)" by simp
    show "fold max ys x \<in> set xs" using fold_max_in[of ys x] Cons by simp
    fix y assume "y \<in> set xs"
    then show "y \<le> fold max ys x"
      using Cons fold_max_ge_init[of x ys] fold_max_ge_elem[of y ys x] by auto
  qed
  then show ?thesis using Cons by simp
qed

lemma py_max_ge: "x \<in> set xs \<Longrightarrow> x \<le> py_max xs d"
  using py_max_Max[of xs d] by (cases "xs = []") auto

lemma set_list_routes: "set (list_routes rs) = {ws. Route ws \<in> set rs}"
  unfolding list_routes_def by (induction rs) (auto split: route.splits)

lemma list_routes_Cons:
  "list_routes (Route ws # rs) = ws # list_routes rs"
  "list_routes (NotAList # rs) = list_routes rs"
  "list_routes [] = []"
  by (simp_all add: list_routes_def)

lemma pad_routes_eq:
  "pad_routes fake_ws max_len rs padded any_padding =
    (map (pad_to fake_ws max_len) rs,
     padded \<union> (\<Union>ws \<in> short_routes max_len rs. {length ws..<max_len}),
     any_padding \<or> short_routes max_len rs \<noteq> {})"
proof (induction fake_ws max_len rs padded any_padding rule: pad_routes.induct)
  case (1 fake_ws max_len padded any_padding)
  then show ?case by (simp add: short_routes_def)
next
  case (2 fake_ws max_len rs padded any_padding)
  then show ?case by (simp add: short_routes_def pad_to_def)
next
  case (3 fake_ws max_len ws rs padded any_padding)
  show ?case
  proof (cases "max_len \<le> length ws")
    case True
    have "short_routes max_len (Route ws # rs) = short_routes max_len rs"
      using True by (auto simp: short_routes_def)
    then show ?thesis using True 3(1) by (simp add: pad_to_def)
  next
    case False
    have "short_routes max_len (Route ws # rs) = insert ws (short_routes max_len rs)"
      using False by (auto simp: short_routes_def)
    then show ?thesis using False 3(2) by (simp add: pad_to_def Let_def Un_assoc)
  qed
qed

lemma max_route_len_ge: "Route ws \<in> set routes \<Longrightarrow> length ws \<le> max_route_len routes"
  unfolding max_route_len_def by (rule py_max_ge) (simp add: set_list_routes)

lemma pad_to_id: "(\<And>ws. r = Route ws \<Longrightarrow> m \<le> length ws) \<Longrightarrow> pad_to f m r = r"
  by (cases r) (simp_all add: pad_to_def)

lemma cycle_lookup_inject:
  "cycle_lookup (inject_cycle p f v i c) i' p' w' =
    (if i' = i \<and> p' = p \<and> w' = f \<and> cycle_lookup c i p f = None then Some v
     else cycle_lookup c i' p' w')"
  unfolding inject_cycle_def setdefault_def cycle_lookup_def
  by (simp split: option.splits)

lemma cycle_lookup_fold_inject:
  "cycle_lookup (fold (inject_cycle p f v) idxs c) i' p' w' =
    (if i' \<in> set idxs \<and> p' = p \<and> w' = f \<and> cycle_lookup c i' p f = None then Some v
     else cycle_lookup c i' p' w')"
proof (induction idxs arbitrary: c)
  case Nil
  show ?case by simp
next
  case (Cons i idxs)
  show ?case
    unfolding fold_simps Cons.IH cycle_lookup_inject
    by auto
qed

lemma minibatch_lookup_inject:
  "minibatch_lookup (inject_minibatch p f v m) p' w' =
    (if p' = p \<and> w' = f \<and> minibatch_lookup m p f = None then Some v
     else minibatch_lookup m p' w')"
  unfolding inject_minibatch_def setdefault_def minibatch_lookup_def
  by (simp split: option.splits)

lemma finite_short_routes: "finite (short_routes m rs)"
proof -
  have "short_routes m rs \<subseteq> set (list_routes rs)"
    by (auto simp: short_routes_def set_list_routes)
  then show ?thesis by (rule finite_subset) simp
qed

lemma short_routes_empty_iff:
  "short_routes (max_route_len routes) routes = {} \<longleftrightarrow> \<not> needs_padding routes"
  by (auto simp: short_routes_def needs_padding_def)

lemma padded_at_needs: "padded_at routes i \<Longrightarrow> needs_padding routes"
  unfolding padded_at_def needs_padding_def by auto

lemma padded_indices:
  "i \<in> set (map int (sorted_list_of_set
       (\<Union>ws \<in> short_routes (max_route_len routes) routes. {length ws..<max_route_len routes})))
   \<longleftrightarrow> padded_at routes i"
proof -
  let ?S = "\<Union>ws \<in> short_routes (max_route_len routes) routes. {length ws..<max_route_len routes}"
  have fin: "finite ?S" using finite_short_routes by blast
  have "i \<in> int ` ?S \<longleftrightarrow> padded_at routes i"
  proof
    assume "i \<in> int ` ?S"
    then obtain n ws where "i = int n" "ws \<in> short_routes (max_route_len routes) routes"
      "length ws \<le> n" "n < max_route_len routes" by auto
    then show "padded_at routes i"
      unfolding padded_at_def short_routes_def by auto
  next
    assume "padded_at routes i"
    then obtain ws where ws: "Route ws \<in> set routes" "int (length ws) \<le> i"
      "i < int (max_route_len routes)" unfolding padded_at_def by blast
    then have "0 \<le> i" by linarith
    then obtain n where n: "i = int n" using nonneg_int_cases by blast
    have "ws \<in> short_routes (max_route_len routes) routes"
      using ws n by (simp add: short_routes_def)
    moreover have "n \<in> {length ws..<max_route_len routes}" using ws n by simp
    ultimately have "n \<in> ?S" by blast
    then show "i \<in> int ` ?S" using n by blast
  qed
  then show ?thesis using fin by simp
qed

lemma pad_product_unfold:
  "pad_product fake_ws fc fm p routes cycle minibatch =
    (map (pad_to fake_ws (max_route_len routes)) routes,
     if needs_padding routes
     then fold (inject_cycle p fake_ws fc)
            (map int (sorted_list_of_set
              (\<Union>ws \<in> short_routes (max_route_len routes) routes. {length ws..<max_route_len routes})))
            cycle
     else cycle,
     if needs_padding routes then inject_minibatch p fake_ws fm minibatch else minibatch)"
proof -
  have np0: "\<not> needs_padding routes" if "max_route_len routes = 0"
    using that by (simp add: needs_padding_def)
  have id: "map (pad_to fake_ws (max_route_len routes)) routes = routes"
    if "max_route_len routes = 0"
    using that by (intro map_idI pad_to_id) simp
  have empty: "max_route_len routes = 0" if "list_routes routes = []"
    using that by (simp add: max_route_len_def)
  consider "routes = []" | "routes \<noteq> []" "list_routes routes = []"
    | "routes \<noteq> []" "list_routes routes \<noteq> []" "max_route_len routes = 0"
    | "routes \<noteq> []" "list_routes routes \<noteq> []" "0 < max_route_len routes"
    by auto
  then show ?thesis
  proof cases
    case 1
    then show ?thesis by (simp add: pad_product_def needs_padding_def)
  next
    case 2
    then show ?thesis using id empty np0 by (simp add: pad_product_def)
  next
    case 3
    then show ?thesis using id np0 by (simp add: pad_product_def max_route_len_def[symmetric])
  next
    case 4
    then show ?thesis
      by (simp add: pad_product_def max_route_len_def[symmetric] pad_routes_eq Let_def
          short_routes_empty_iff)
  qed
qed

lemma pad_product_cycle_lookup:
  "cycle_lookup (fst (snd (pad_product fake_ws fc fm p routes cycle minibatch))) i p' w =
    (if padded_at routes i \<and> p' = p \<and> w = fake_ws \<and> cycle_lookup cycle i p fake_ws = None
     then Some fc else cycle_lookup cycle i p' w)"
  unfolding pad_product_unfold
  using padded_at_needs[of routes i]
  by (simp add: cycle_lookup_fold_inject padded_indices del: set_map)

lemma pad_product_minibatch_lookup:
  "minibatch_lookup (snd (snd (pad_product fake_ws fc fm p routes cycle minibatch))) p' w =
    (if needs_padding routes \<and> p' = p \<and> w = fake_ws \<and> minibatch_lookup minibatch p fake_ws = None
     then Some fm else minibatch_lookup minibatch p' w)"
  unfolding pad_product_unfold
  by (simp add: minibatch_lookup_inject)

lemma pad_products_bom:
  "fst (pad_products f fc fm bom c m) =
     map (\<lambda>(p, routes). (p, map (pad_to f (max_route_len routes)) routes)) bom"
proof (induction bom arbitrary: c m)
  case Nil
  show ?case by simp
next
  case (Cons pr rest)
  obtain p routes where pr: "pr = (p, routes)" by (cases pr)
  obtain c1 m1 where pp: "pad_product f fc fm p routes c m =
      (map (pad_to f (max_route_len routes)) routes, c1, m1)"
    by (simp add: pad_product_unfold)
  obtain rest' c2 m2 where pr2: "pad_products f fc fm rest c1 m1 = (rest', c2, m2)"
    by (cases "pad_products f fc fm rest c1 m1")
  have "rest' = map (\<lambda>(p, routes). (p, map (pad_to f (max_route_len routes)) routes)) rest"
    using Cons.IH[of c1 m1] by (simp add: pr2)
  then show ?case by (simp add: pr pp pr2)
qed

lemma pad_products_cycle_lookup:
  "cycle_lookup (fst (snd (pad_products f fc fm bom c m))) i p w =
    (if w = f \<and> cycle_lookup c i p f = None \<and> (\<exists>routes. (p, routes) \<in> set bom \<and> padded_at routes i)
     then Some fc else cycle_lookup c i p w)"
proof (induction bom arbitrary: c m)
  case Nil
  show ?case by simp
next
  case (Cons pr rest)
  obtain q routes where pr: "pr = (q, routes)" by (cases pr)
  obtain r1 c1 m1 where pp: "pad_product f fc fm q routes c m = (r1, c1, m1)"
    by (cases "pad_product f fc fm q routes c m")
  have c1: "cycle_lookup c1 i' p' w' =
    (if padded_at routes i' \<and> p' = q \<and> w' = f \<and> cycle_lookup c i' q f = None
     then Some fc else cycle_lookup c i' p' w')" for i' p' w'
    using pad_product_cycle_lookup[of f fc fm q routes c m i' p' w'] by (simp add: pp)
  have "cycle_lookup (fst (snd (pad_products f fc fm (pr # rest) c m))) i p w =
        cycle_lookup (fst (snd (pad_products f fc fm rest c1 m1))) i p w"
    by (simp add: pr pp split: prod.splits)
  also have "\<dots> = (if w = f \<and> cycle_lookup c1 i p f = None \<and>
                      (\<exists>routes. (p, routes) \<in> set rest \<and> padded_at routes i)
                   then Some fc else cycle_lookup c1 i p w)"
    by (rule Cons.IH)
  also have "\<dots> = (if w = f \<and> cycle_lookup c i p f = None \<and>
                      (\<exists>routes. (p, routes) \<in> set (pr # rest) \<and> padded_at routes i)
                   then Some fc else cycle_lookup c i p w)"
    unfolding c1 pr by auto
  finally show ?case .
qed

lemma pad_products_minibatch_lookup:
  "minibatch_lookup (snd (snd (pad_products f fc fm bom c m))) p w =
    (if w = f \<and> minibatch_lookup m p f = None \<and> (\<exists>routes. (p, routes) \<in> set bom \<and> needs_padding routes)
     then Some fm else minibatch_lookup m p w)"
proof (induction bom arbitrary: c m)
  case Nil
  show ?case by simp
next
  case (Cons pr rest)
  obtain q routes where pr: "pr = (q, routes)" by (cases pr)
  obtain r1 c1 m1 where pp: "pad_product f fc fm q routes c m = (r1, c1, m1)"
    by (cases "pad_product f fc fm q routes c m")
  have m1: "minibatch_lookup m1 p' w' =
    (if needs_padding routes \<and> p' = q \<and> w' = f \<and> minibatch_lookup m q f = None
     then Some fm else minibatch_lookup m p' w')" for p' w'
    using pad_product_minibatch_lookup[of f fc fm q routes c m p' w'] by (simp add: pp)
  have "minibatch_lookup (snd (snd (pad_products f fc fm (pr # rest) c m))) p w =
        minibatch_lookup (snd (snd (pad_products f fc fm rest c1 m1))) p w"
    by (simp add: pr pp split: prod.splits)
  also have "\<dots> = (if w = f \<and> minibatch_lookup m1 p f = None \<and>
                      (\<exists>routes. (p, routes) \<in> set rest \<and> needs_padding routes)
                   then Some fm else minibatch_lookup m1 p w)"
    by (rule Cons.IH)
  also have "\<dots> = (if w = f \<and> minibatch_lookup m p f = None \<and>
                      (\<exists>routes. (p, routes) \<in> set (pr # rest) \<and> needs_padding routes)
                   then Some fm else minibatch_lookup m p w)"
    unfolding m1 pr by auto
  finally show ?case .
qed

lemma pad_boms_eq:
  "pad_boms_and_inject_fake_defaults_sparse c m bom f fc fm =
    (fst (snd (pad_products f fc fm bom c m)), snd (snd (pad_products f fc fm bom c m)),
     fst (pad_products f fc fm bom c m))"
  by (cases bom) (simp_all add: pad_boms_and_inject_fake_defaults_sparse_def split: prod.splits)

lemma max_route_len_attained:
  assumes "Route ws \<in> set r"
  shows "\<exists>ws'. Route ws' \<in> set r \<and> length ws' = max_route_len r"
proof -
  have ne: "map length (list_routes r) \<noteq> []"
    using assms set_list_routes[of r] by auto
  then have "max_route_len r = Max (set (map length (list_routes r)))"
    unfolding max_route_len_def by (rule py_max_Max)
  moreover have "Max (set (map length (list_routes r))) \<in> set (map length (list_routes r))"
    using ne by (intro Max_in) simp_all
  ultimately show ?thesis by (auto simp: set_list_routes)
qed

lemma max_route_len_Max:
  assumes "Route ws \<in> set r"
  shows "max_route_len r = Max (length ` set (list_routes r))"
proof -
  have ne: "map length (list_routes r) \<noteq> []"
    using assms set_list_routes[of r] by auto
  then have "max_route_len r = Max (set (map length (list_routes r)))"
    unfolding max_route_len_def by (rule py_max_Max)
  then show ?thesis by simp
qed

lemma pad_to_length:
  assumes "Route ws' \<in> set (map (pad_to f (max_route_len r)) r)"
  shows "length ws' = max_route_len r \<and> (\<exists>ws. Route ws \<in> set r)"
proof -
  from assms obtain x where x: "x \<in> set r" "pad_to f (max_route_len r) x = Route ws'" by auto
  from x(2) obtain ws where ws: "x = Route ws" "ws' = ws @ replicate (max_route_len r - length ws) f"
    by (cases x) (auto simp: pad_to_def)
  have "length ws \<le> max_route_len r" using x(1) ws(1) by (simp add: max_route_len_ge)
  then show ?thesis using ws x(1) by auto
qed

lemma not_needs_padding_after: "\<not> needs_padding (map (pad_to f (max_route_len r)) r)"
proof
  let ?r' = "map (pad_to f (max_route_len r)) r"
  assume "needs_padding ?r'"
  then obtain ws' where ws': "Route ws' \<in> set ?r'" "length ws' < max_route_len ?r'"
    unfolding needs_padding_def by blast
  from max_route_len_attained[OF ws'(1)] obtain ws'' where
    ws'': "Route ws'' \<in> set ?r'" "length ws'' = max_route_len ?r'" by blast
  from pad_to_length[OF ws'(1)] pad_to_length[OF ws''(1)] ws'(2) ws''(2)
  show False by simp
qed

lemma pad_product_normalized:
  assumes "\<not> needs_padding routes"
  shows "pad_product f fc fm p routes c m = (routes, c, m)"
proof -
  have "pad_to f (max_route_len routes) x = x" if "x \<in> set routes" for x
  proof (rule pad_to_id)
    fix ws assume "x = Route ws"
    then show "max_route_len routes \<le> length ws"
      using assms that unfolding needs_padding_def by force
  qed
  then have "map (pad_to f (max_route_len routes)) routes = routes"
    by (intro map_idI)
  then show ?thesis using assms by (simp add: pad_product_unfold)
qed

lemma pad_products_normalized:
  assumes "\<And>p routes. (p, routes) \<in> set bom \<Longrightarrow> \<not> needs_padding routes"
  shows "pad_products f fc fm bom c m = (bom, c, m)"
  using assms
proof (induction bom arbitrary: c m)
  case Nil
  show ?case by simp
next
  case (Cons pr rest)
  obtain p routes where pr: "pr = (p, routes)" by (cases pr)
  have "pad_product f fc fm p routes c m = (routes, c, m)"
    using Cons.prems[of p routes] by (intro pad_product_normalized) (simp add: pr)
  moreover have "pad_products f fc fm rest c m = (rest, c, m)"
  proof (rule Cons.IH)
    fix p' routes' assume "(p', routes') \<in> set rest"
    then show "\<not> needs_padding routes'" using Cons.prems[of p' routes'] by simp
  qed
  ultimately show ?case by (simp add: pr)
qed

lemma pad_products_idem:
  "pad_products f fc fm (fst (pad_products f fc fm bom c m)) c' m' =
     (fst (pad_products f fc fm bom c m), c', m')"
proof (rule pad_products_normalized)
  fix p routes
  assume "(p, routes) \<in> set (fst (pad_products f fc fm bom c m))"
  then obtain r0 where "routes = map (pad_to f (max_route_len r0)) r0"
    unfolding pad_products_bom by auto
  then show "\<not> needs_padding routes" by (simp add: not_needs_padding_after)
qed

text \<open>
  C5: the route normalizer is idempotent: for every input, applying it to its own result
  returns that result, all three structures unchanged.
\<close>

theorem C5_normalizer_idempotent:
  "(case pad_boms_and_inject_fake_defaults_sparse cycle minibatch bom_data fake_ws fcm fmb of
      (cycle', minibatch', bom_data') \<Rightarrow>
        pad_boms_and_inject_fake_defaults_sparse cycle' minibatch' bom_data' fake_ws fcm fmb)
   = pad_boms_and_inject_fake_defaults_sparse cycle minibatch bom_data fake_ws fcm fmb"
proof -
  let ?P = "pad_products fake_ws fcm fmb bom_data cycle minibatch"
  have "pad_boms_and_inject_fake_defaults_sparse (fst (snd ?P)) (snd (snd ?P)) (fst ?P) fake_ws fcm fmb
        = (fst (snd ?P), snd (snd ?P), fst ?P)"
    unfolding pad_boms_eq[of "fst (snd ?P)"] pad_products_idem by simp
  then show ?thesis
    unfolding pad_boms_eq[of cycle] by simp
qed

lemma pad_boms_bom:
  "snd (snd (pad_boms_and_inject_fake_defaults_sparse c m bom f fc fm)) =
     map (\<lambda>(p, routes). (p, map (pad_to f (max_route_len routes)) routes)) bom"
  by (simp add: pad_boms_eq pad_products_bom)

lemma pad_boms_cycle_lookup:
  "cycle_lookup (fst (pad_boms_and_inject_fake_defaults_sparse c m bom f fc fm)) i p w =
    (if w = f \<and> cycle_lookup c i p f = None \<and> (\<exists>routes. (p, routes) \<in> set bom \<and> padded_at routes i)
     then Some fc else cycle_lookup c i p w)"
  by (simp add: pad_boms_eq pad_products_cycle_lookup)

lemma pad_boms_minibatch_lookup:
  "minibatch_lookup (fst (snd (pad_boms_and_inject_fake_defaults_sparse c m bom f fc fm))) p w =
    (if w = f \<and> minibatch_lookup m p f = None \<and> (\<exists>routes. (p, routes) \<in> set bom \<and> needs_padding routes)
     then Some fm else minibatch_lookup m p w)"
  by (simp add: pad_boms_eq pad_products_minibatch_lookup)

text \<open>
  C3: for every product of the route table (the entry at any position \<open>i\<close>), the
  normalizer leaves the table's length and the product's place unchanged, and all of the
  product's routes have the same length afterwards, the maximum length of its routes
  before; every route keeps its steps as a prefix and only has sentinel codes appended,
  so none is shortened. Entries that are not lists stay as they are.
\<close>

theorem C3_routes_padded_to_max:
  assumes "i < length bom_data" and "bom_data ! i = (product_code, routes)"
  shows "\<exists>routes'.
      snd (snd (pad_boms_and_inject_fake_defaults_sparse cycle minibatch bom_data fake_ws fcm fmb)) ! i
        = (product_code, routes')
    \<and> length (snd (snd (pad_boms_and_inject_fake_defaults_sparse cycle minibatch bom_data fake_ws fcm fmb)))
        = length bom_data
    \<and> length routes' = length routes
    \<and> (\<forall>ws'. Route ws' \<in> set routes' \<longrightarrow> length ws' = Max (length ` set (list_routes routes)))
    \<and> (\<forall>j < length routes.
          case routes ! j of
            Route ws \<Rightarrow> \<exists>k. routes' ! j = Route (ws @ replicate k fake_ws)
          | NotAList \<Rightarrow> routes' ! j = NotAList)"
proof -
  let ?routes' = "map (pad_to fake_ws (max_route_len routes)) routes"
  have nth: "snd (snd (pad_boms_and_inject_fake_defaults_sparse cycle minibatch bom_data fake_ws fcm fmb)) ! i
      = (product_code, ?routes')"
    using assms by (simp add: pad_boms_bom)
  have len: "length (snd (snd (pad_boms_and_inject_fake_defaults_sparse cycle minibatch bom_data fake_ws fcm fmb)))
      = length bom_data"
    by (simp add: pad_boms_bom)
  have eq: "length ws' = Max (length ` set (list_routes routes))" if "Route ws' \<in> set ?routes'" for ws'
  proof -
    from pad_to_length[OF that] obtain ws where "length ws' = max_route_len routes"
      "Route ws \<in> set routes" by blast
    then show ?thesis using max_route_len_Max[of ws routes] by simp
  qed
  have pre: "case routes ! j of
            Route ws \<Rightarrow> \<exists>k. ?routes' ! j = Route (ws @ replicate k fake_ws)
          | NotAList \<Rightarrow> ?routes' ! j = NotAList" if "j < length routes" for j
    using that by (cases "routes ! j") (auto simp: pad_to_def)
  show ?thesis
    using nth len eq pre by (intro exI[of _ ?routes']) simp
qed

theorem C3_routes_padded_to_max_witness:
  "(0::nat) < length [(''P1'', [Route [''A'', ''B'', ''C''], Route [''A'', ''B'', ''C'', ''D'', ''E'']])]
   \<and> [(''P1'', [Route [''A'', ''B'', ''C''], Route [''A'', ''B'', ''C'', ''D'', ''E'']])] ! 0
        = (''P1'', [Route [''A'', ''B'', ''C''], Route [''A'', ''B'', ''C'', ''D'', ''E'']])
   \<and> snd (snd (pad_boms_and_inject_fake_defaults_sparse Map.empty Map.empty
        [(''P1'', [Route [''A'', ''B'', ''C''], Route [''A'', ''B'', ''C'', ''D'', ''E'']])]
        ''FAKE'' (1/100) 100))
      = [(''P1'', [Route [''A'', ''B'', ''C'', ''FAKE'', ''FAKE''],
                   Route [''A'', ''B'', ''C'', ''D'', ''E'']])]
   \<and> (\<exists>routes'.
        snd (snd (pad_boms_and_inject_fake_defaults_sparse Map.empty Map.empty
          [(''P1'', [Route [''A'', ''B'', ''C''], Route [''A'', ''B'', ''C'', ''D'', ''E'']])]
          ''FAKE'' (1/100) 100)) ! 0 = (''P1'', routes')
      \<and> (\<forall>ws'. Route ws' \<in> set routes' \<longrightarrow>
            length ws' = Max (length ` set (list_routes
              [Route [''A'', ''B'', ''C''], Route [''A'', ''B'', ''C'', ''D'', ''E'']])))
      \<and> (\<forall>j < length [Route [''A'', ''B'', ''C''], Route [''A'', ''B'', ''C'', ''D'', ''E'']].
            case [Route [''A'', ''B'', ''C''], Route [''A'', ''B'', ''C'', ''D'', ''E'']] ! j of
              Route ws \<Rightarrow> \<exists>k. routes' ! j = Route (ws @ replicate k ''FAKE'')
            | NotAList \<Rightarrow> routes' ! j = NotAList))"
proof -
  let ?bom = "[(''P1'', [Route [''A'', ''B'', ''C''], Route [''A'', ''B'', ''C'', ''D'', ''E'']])]"
  have h1: "(0::nat) < length ?bom" by simp
  have h2: "?bom ! 0 = (''P1'', [Route [''A'', ''B'', ''C''], Route [''A'', ''B'', ''C'', ''D'', ''E'']])"
    by simp
  have ev: "snd (snd (pad_boms_and_inject_fake_defaults_sparse Map.empty Map.empty ?bom
        ''FAKE'' (1/100) 100))
      = [(''P1'', [Route [''A'', ''B'', ''C'', ''FAKE'', ''FAKE''],
                   Route [''A'', ''B'', ''C'', ''D'', ''E'']])]"
    by code_simp
  from C3_routes_padded_to_max[OF h1 h2, of Map.empty Map.empty "''FAKE''" "1/100" 100]
  obtain routes' where
    "snd (snd (pad_boms_and_inject_fake_defaults_sparse Map.empty Map.empty ?bom
          ''FAKE'' (1/100) 100)) ! 0 = (''P1'', routes')"
    "\<forall>ws'. Route ws' \<in> set routes' \<longrightarrow>
            length ws' = Max (length ` set (list_routes
              [Route [''A'', ''B'', ''C''], Route [''A'', ''B'', ''C'', ''D'', ''E'']]))"
    "\<forall>j < length [Route [''A'', ''B'', ''C''], Route [''A'', ''B'', ''C'', ''D'', ''E'']].
            case [Route [''A'', ''B'', ''C''], Route [''A'', ''B'', ''C'', ''D'', ''E'']] ! j of
              Route ws \<Rightarrow> \<exists>k. routes' ! j = Route (ws @ replicate k ''FAKE'')
            | NotAList \<Rightarrow> routes' ! j = NotAList"
    by blast
  then show ?thesis using h1 h2 ev by blast
qed

text \<open>
  C4: sentinel defaults are injected sparsely. An entry of the normalized cycle table for
  (process index, product, sentinel workstation) that the table did not have before exists
  only if a route of that product was padded at that index: the index is at or beyond the
  route's original length and below the product's maximum route length. An entry of the
  normalized minimum-batch table for (product, sentinel workstation) that was not there
  before exists only if a route of that product was padded. A product none of whose
  routes is shorter than its maximum keeps its entries of both tables unchanged.
\<close>

theorem C4_sentinel_defaults_sparse:
  assumes "pad_boms_and_inject_fake_defaults_sparse cycle minibatch bom_data fake_ws fcm fmb
             = (cycle', minibatch', bom_data')"
  shows "(cycle_lookup cycle' i p fake_ws \<noteq> None \<and> cycle_lookup cycle i p fake_ws = None \<longrightarrow>
            (\<exists>routes ws. (p, routes) \<in> set bom_data \<and> Route ws \<in> set routes
               \<and> int (length ws) \<le> i \<and> i < int (Max (length ` set (list_routes routes)))))
       \<and> (minibatch_lookup minibatch' p fake_ws \<noteq> None \<and> minibatch_lookup minibatch p fake_ws = None \<longrightarrow>
            (\<exists>routes ws. (p, routes) \<in> set bom_data \<and> Route ws \<in> set routes
               \<and> length ws < Max (length ` set (list_routes routes))))
       \<and> ((\<forall>routes ws. (p, routes) \<in> set bom_data \<and> Route ws \<in> set routes \<longrightarrow>
              Max (length ` set (list_routes routes)) \<le> length ws) \<longrightarrow>
            (\<forall>j w. cycle_lookup cycle' j p w = cycle_lookup cycle j p w)
            \<and> (\<forall>w. minibatch_lookup minibatch' p w = minibatch_lookup minibatch p w))"
proof -
  have c': "cycle' = fst (pad_boms_and_inject_fake_defaults_sparse cycle minibatch bom_data fake_ws fcm fmb)"
    and m': "minibatch' = fst (snd (pad_boms_and_inject_fake_defaults_sparse cycle minibatch bom_data fake_ws fcm fmb))"
    using assms by simp_all
  have pad_at: "\<exists>ws. Route ws \<in> set routes \<and> int (length ws) \<le> j
       \<and> j < int (Max (length ` set (list_routes routes)))" if "padded_at routes j" for routes j
  proof -
    from that obtain ws where ws: "Route ws \<in> set routes" "int (length ws) \<le> j"
      "j < int (max_route_len routes)" unfolding padded_at_def by blast
    then show ?thesis using max_route_len_Max[of ws routes] by auto
  qed
  have needs: "\<exists>ws. Route ws \<in> set routes
       \<and> length ws < Max (length ` set (list_routes routes))" if "needs_padding routes" for routes
  proof -
    from that obtain ws where ws: "Route ws \<in> set routes" "length ws < max_route_len routes"
      unfolding needs_padding_def by blast
    then show ?thesis using max_route_len_Max[of ws routes] by auto
  qed
  have A: "\<exists>routes ws. (p, routes) \<in> set bom_data \<and> Route ws \<in> set routes
               \<and> int (length ws) \<le> i \<and> i < int (Max (length ` set (list_routes routes)))"
    if "cycle_lookup cycle' i p fake_ws \<noteq> None" "cycle_lookup cycle i p fake_ws = None"
  proof -
    from that obtain routes where "(p, routes) \<in> set bom_data" "padded_at routes i"
      unfolding c' pad_boms_cycle_lookup by (auto split: if_splits)
    then show ?thesis using pad_at by blast
  qed
  have B: "\<exists>routes ws. (p, routes) \<in> set bom_data \<and> Route ws \<in> set routes
               \<and> length ws < Max (length ` set (list_routes routes))"
    if "minibatch_lookup minibatch' p fake_ws \<noteq> None" "minibatch_lookup minibatch p fake_ws = None"
  proof -
    from that obtain routes where "(p, routes) \<in> set bom_data" "needs_padding routes"
      unfolding m' pad_boms_minibatch_lookup by (auto split: if_splits)
    then show ?thesis using needs by blast
  qed
  have C: "(\<forall>j w. cycle_lookup cycle' j p w = cycle_lookup cycle j p w)
            \<and> (\<forall>w. minibatch_lookup minibatch' p w = minibatch_lookup minibatch p w)"
    if no: "\<forall>routes ws. (p, routes) \<in> set bom_data \<and> Route ws \<in> set routes \<longrightarrow>
              Max (length ` set (list_routes routes)) \<le> length ws"
  proof -
    have nn: "\<not> needs_padding routes" if "(p, routes) \<in> set bom_data" for routes
    proof
      assume "needs_padding routes"
      from needs[OF this] obtain ws where "Route ws \<in> set routes"
        "length ws < Max (length ` set (list_routes routes))" by blast
      then show False using no that by fastforce
    qed
    then have np: "\<not> padded_at routes j" if "(p, routes) \<in> set bom_data" for routes j
      using that padded_at_needs by blast
    show ?thesis
      unfolding c' m' pad_boms_cycle_lookup pad_boms_minibatch_lookup
      using nn np by auto
  qed
  show ?thesis using A B C by blast
qed

theorem C4_sentinel_defaults_sparse_witness:
  "cycle_lookup (fst (pad_boms_and_inject_fake_defaults_sparse Map.empty Map.empty
        [(''P1'', [Route [''A'', ''B'', ''C''], Route [''A'', ''B'', ''C'', ''D'', ''E'']]),
         (''P2'', [Route [''A''], Route [''B'']])] ''FAKE'' (1/100) 100)) 3 ''P1'' ''FAKE'' \<noteq> None
   \<and> cycle_lookup Map.empty 3 ''P1'' ''FAKE'' = None
   \<and> (\<exists>routes ws. (''P1'', routes) \<in> set
        [(''P1'', [Route [''A'', ''B'', ''C''], Route [''A'', ''B'', ''C'', ''D'', ''E'']]),
         (''P2'', [Route [''A''], Route [''B'']])] \<and> Route ws \<in> set routes
        \<and> int (length ws) \<le> 3 \<and> 3 < int (Max (length ` set (list_routes routes))))
   \<and> minibatch_lookup (fst (snd (pad_boms_and_inject_fake_defaults_sparse Map.empty Map.empty
        [(''P1'', [Route [''A'', ''B'', ''C''], Route [''A'', ''B'', ''C'', ''D'', ''E'']]),
         (''P2'', [Route [''A''], Route [''B'']])] ''FAKE'' (1/100) 100))) ''P1'' ''FAKE'' \<noteq> None
   \<and> minibatch_lookup Map.empty ''P1'' ''FAKE'' = None
   \<and> (\<exists>routes ws. (''P1'', routes) \<in> set
        [(''P1'', [Route [''A'', ''B'', ''C''], Route [''A'', ''B'', ''C'', ''D'', ''E'']]),
         (''P2'', [Route [''A''], Route [''B'']])] \<and> Route ws \<in> set routes
        \<and> length ws < Max (length ` set (list_routes routes)))
   \<and> (\<forall>j w. cycle_lookup (fst (pad_boms_and_inject_fake_defaults_sparse Map.empty Map.empty
        [(''P1'', [Route [''A'', ''B'', ''C''], Route [''A'', ''B'', ''C'', ''D'', ''E'']]),
         (''P2'', [Route [''A''], Route [''B'']])] ''FAKE'' (1/100) 100)) j ''P2'' w = None)
   \<and> (\<forall>w. minibatch_lookup (fst (snd (pad_boms_and_inject_fake_defaults_sparse Map.empty Map.empty
        [(''P1'', [Route [''A'', ''B'', ''C''], Route [''A'', ''B'', ''C'', ''D'', ''E'']]),
         (''P2'', [Route [''A''], Route [''B'']])] ''FAKE'' (1/100) 100))) ''P2'' w = None)"
proof -
  let ?bom = "[(''P1'', [Route [''A'', ''B'', ''C''], Route [''A'', ''B'', ''C'', ''D'', ''E'']]),
         (''P2'', [Route [''A''], Route [''B'']])]"
  let ?X = "pad_boms_and_inject_fake_defaults_sparse Map.empty Map.empty ?bom ''FAKE'' (1/100) 100"
  have X: "?X = (fst ?X, fst (snd ?X), snd (snd ?X))" by simp
  have c: "cycle_lookup (fst ?X) 3 ''P1'' ''FAKE'' \<noteq> None" by code_simp
  have c0: "cycle_lookup Map.empty 3 ''P1'' ''FAKE'' = None" by (simp add: cycle_lookup_def)
  have m: "minibatch_lookup (fst (snd ?X)) ''P1'' ''FAKE'' \<noteq> None" by code_simp
  have m0: "minibatch_lookup Map.empty ''P1'' ''FAKE'' = None" by (simp add: minibatch_lookup_def)
  have p2: "\<forall>routes ws. (''P2'', routes) \<in> set ?bom \<and> Route ws \<in> set routes \<longrightarrow>
              Max (length ` set (list_routes routes)) \<le> length ws"
    by (auto simp: list_routes_def)
  have e0: "cycle_lookup Map.empty j ''P2'' w = None" "minibatch_lookup Map.empty ''P2'' w = None"
    for j w by (simp_all add: cycle_lookup_def minibatch_lookup_def)
  from C4_sentinel_defaults_sparse[OF X, of 3 "''P1''"] c c0 m m0
  have "\<exists>routes ws. (''P1'', routes) \<in> set ?bom \<and> Route ws \<in> set routes
        \<and> int (length ws) \<le> 3 \<and> 3 < int (Max (length ` set (list_routes routes)))"
    and "\<exists>routes ws. (''P1'', routes) \<in> set ?bom \<and> Route ws \<in> set routes
        \<and> length ws < Max (length ` set (list_routes routes))"
    by blast+
  moreover from C4_sentinel_defaults_sparse[OF X, of 0 "''P2''"] p2
  have "\<forall>j w. cycle_lookup (fst ?X) j ''P2'' w = None"
    and "\<forall>w. minibatch_lookup (fst (snd ?X)) ''P2'' w = None"
    unfolding e0 by blast+
  ultimately show ?thesis using c c0 m m0 by blast
qed

section \<open>Order state reconciler: proofs\<close>

lemma fold_upd_find:
  "fold (\<lambda>row m. if c row then m(key row \<mapsto> val row) else m) rows Map.empty k =
     map_option val (find (\<lambda>row. c row \<and> key row = k) (rev rows))"
proof (induction rows rule: rev_induct)
  case Nil
  show ?case by simp
next
  case (snoc x xs)
  then show ?case by simp
qed

lemma find_SomeD: "find P xs = Some x \<Longrightarrow> x \<in> set xs \<and> P x"
  by (induction xs) (auto split: if_splits)

lemma past_machines_by_wo_find:
  "past_machines_by_wo nums rows n =
    (if nums = [] then None
     else map_option
       (\<lambda>row. case (bc_workstation_code row, bc_route_step_index row) of
                 (Some ws, Some step) \<Rightarrow> replicate (nat (max 0 (step - 1))) ''EMPTY'' @ [ws]
               | _ \<Rightarrow> [])
       (find (\<lambda>row. bc_work_order_number row = n) (rev rows)))"
proof (cases "nums = []")
  case True
  then show ?thesis by (simp add: past_machines_by_wo_def)
next
  case False
  have "fold (\<lambda>row m. case (bc_workstation_code row, bc_route_step_index row) of
                          (Some ws, Some step) \<Rightarrow>
                            (let n_empty = max 0 (step - 1)
                             in m(bc_work_order_number row \<mapsto> replicate (nat n_empty) ''EMPTY'' @ [ws]))
                        | _ \<Rightarrow> m(bc_work_order_number row \<mapsto> [])) rows Map.empty n
      = map_option
       (\<lambda>row. case (bc_workstation_code row, bc_route_step_index row) of
                 (Some ws, Some step) \<Rightarrow> replicate (nat (max 0 (step - 1))) ''EMPTY'' @ [ws]
               | _ \<Rightarrow> [])
       (find (\<lambda>row. bc_work_order_number row = n) (rev rows))"
  proof (induction rows rule: rev_induct)
    case Nil
    show ?case by simp
  next
    case (snoc x xs)
    then show ?case by (simp add: Let_def split: option.splits)
  qed
  then show ?thesis using False by (simp add: past_machines_by_wo_def)
qed

lemma last_event_by_wo_find:
  "last_event_by_wo nums rows n =
    (if nums = [] then None
     else map_option (\<lambda>row. upper (or_empty (lr_event_type row)))
       (find (\<lambda>row. lr_work_order_number row = n) (rev rows)))"
  unfolding last_event_by_wo_def
  using fold_upd_find[of "\<lambda>_. True" lr_work_order_number "\<lambda>row. upper (or_empty (lr_event_type row))" rows n]
  by simp

lemma latest_time_find:
  "fold (\<lambda>row m. case (lbc_work_order_id row, lbc_last_event_time row) of
                     (Some wo_id, Some dt) \<Rightarrow> m(wo_id \<mapsto> g dt)
                   | _ \<Rightarrow> m) rows Map.empty wo_id =
   map_option g (case find (\<lambda>row. lbc_work_order_id row = Some wo_id \<and> lbc_last_event_time row \<noteq> None)
            (rev rows) of None \<Rightarrow> None | Some row \<Rightarrow> lbc_last_event_time row)"
proof (induction rows rule: rev_induct)
  case Nil
  show ?case by simp
next
  case (snoc x xs)
  then show ?case by (auto split: option.splits)
qed

lemma by_id_of_Some:
  assumes "by_id_of rows wo_id = Some base"
  shows "base \<in> set rows \<and> w_id base = wo_id"
proof -
  have "by_id_of rows wo_id = map_option (\<lambda>d. d) (find (\<lambda>d. True \<and> w_id d = wo_id) (rev rows))"
    unfolding by_id_of_def
    using fold_upd_find[of "\<lambda>_. True" w_id "\<lambda>d. d" rows wo_id] by simp
  with assms have "find (\<lambda>d. w_id d = wo_id) (rev rows) = Some base" by simp
  from find_SomeD[OF this] show ?thesis by simp
qed

lemma fold_orders_entry:
  "fold (\<lambda>x m. case f x of None \<Rightarrow> m | Some b \<Rightarrow> m(key b \<mapsto> g x b)) xs m0 k = Some r \<Longrightarrow>
     m0 k = Some r \<or> (\<exists>x \<in> set xs. \<exists>b. f x = Some b \<and> key b = k \<and> r = g x b)"
proof (induction xs arbitrary: m0)
  case Nil
  then show ?case by simp
next
  case (Cons x xs)
  from Cons.IH[OF Cons.prems[simplified]]
  show ?case by (auto split: option.splits if_splits)
qed

lemma status_norm:
  "upper (strip (or_empty (Some ''IN_PROGRESS''))) = ''IN_PROGRESS''"
  "upper (strip (or_empty (Some ''NOT_STARTED''))) = ''NOT_STARTED''"
  "upper (or_empty (Some ''IN_PROGRESS'')) = ''IN_PROGRESS''"
  "upper (or_empty (Some ''NOT_STARTED'')) = ''NOT_STARTED''"
  by code_simp+

lemma load_orders_sound:
  assumes "load_orders db ids pids k = Some r"
  shows "\<exists>base \<in> set (db_wo_rows db). w_id base \<in> set ids \<and> w_work_order_number base = k
     \<and> r = order_entry (latest_barcode_time_by_wo_id (db_last_bc_rows db))
              (last_process_by_product pids (db_route_rows db))
              (past_machines_by_wo (wo_numbers_of (db_wo_rows db)) (db_bc_rows db))
              (last_event_by_wo (wo_numbers_of (db_wo_rows db)) (db_last_rows db))
              (w_id base) base"
proof -
  let ?g = "order_entry (latest_barcode_time_by_wo_id (db_last_bc_rows db))
              (last_process_by_product pids (db_route_rows db))
              (past_machines_by_wo (wo_numbers_of (db_wo_rows db)) (db_bc_rows db))
              (last_event_by_wo (wo_numbers_of (db_wo_rows db)) (db_last_rows db))"
  have ne: "ids \<noteq> []" using assms by (auto simp: load_orders_def)
  then have "fold (\<lambda>wo_id orders. case by_id_of (db_wo_rows db) wo_id of None \<Rightarrow> orders
                 | Some base \<Rightarrow> orders(w_work_order_number base \<mapsto> ?g wo_id base))
             ids Map.empty k = Some r"
    using assms by (simp add: load_orders_def Let_def)
  from fold_orders_entry[OF this]
  obtain wo_id base where wb: "wo_id \<in> set ids" "by_id_of (db_wo_rows db) wo_id = Some base"
    "w_work_order_number base = k" "r = ?g wo_id base" by auto
  from by_id_of_Some[OF wb(2)] wb show ?thesis by auto
qed

lemma load_orders_cplex_sound:
  assumes "load_orders_cplex db ids pids present_time k = Some r"
  shows "\<exists>base \<in> set (db_wo_rows db). w_id base \<in> set ids \<and> w_work_order_number base = k
     \<and> r = order_entry_cplex present_time (latest_event_time_by_wo_id (db_last_bc_rows db))
              (last_process_by_product pids (db_route_rows db))
              (past_machines_by_wo (wo_numbers_of (db_wo_rows db)) (db_bc_rows db))
              (last_event_by_wo (wo_numbers_of (db_wo_rows db)) (db_last_rows db))
              (last_complete_qty_by_wo (wo_numbers_of (db_wo_rows db)) (db_complete_rows db))
              (w_id base) base"
proof -
  let ?g = "order_entry_cplex present_time (latest_event_time_by_wo_id (db_last_bc_rows db))
              (last_process_by_product pids (db_route_rows db))
              (past_machines_by_wo (wo_numbers_of (db_wo_rows db)) (db_bc_rows db))
              (last_event_by_wo (wo_numbers_of (db_wo_rows db)) (db_last_rows db))
              (last_complete_qty_by_wo (wo_numbers_of (db_wo_rows db)) (db_complete_rows db))"
  have ne: "ids \<noteq> []" using assms by (auto simp: load_orders_cplex_def)
  then have "fold (\<lambda>wo_id orders. case by_id_of (db_wo_rows db) wo_id of None \<Rightarrow> orders
                 | Some base \<Rightarrow> orders(w_work_order_number base \<mapsto> ?g wo_id base))
             ids Map.empty k = Some r"
    using assms by (simp add: load_orders_cplex_def Let_def)
  from fold_orders_entry[OF this]
  obtain wo_id base where wb: "wo_id \<in> set ids" "by_id_of (db_wo_rows db) wo_id = Some base"
    "w_work_order_number base = k" "r = ?g wo_id base" by auto
  from by_id_of_Some[OF wb(2)] wb show ?thesis by auto
qed

lemma get_opt_past_machines:
  "get_opt (past_machines_by_wo (wo_numbers_of (db_wo_rows db)) (db_bc_rows db)) k =
     map_option
       (\<lambda>row. case (bc_workstation_code row, bc_route_step_index row) of
                 (Some ws, Some step) \<Rightarrow> replicate (nat (max 0 (step - 1))) ''EMPTY'' @ [ws]
               | _ \<Rightarrow> [])
       (latest_bc_row db k)"
  unfolding get_opt_def latest_bc_row_def past_machines_by_wo_find
  by (simp split: option.splits)

lemma past_machines_empty_iff:
  "(case get_opt (past_machines_by_wo (wo_numbers_of (db_wo_rows db)) (db_bc_rows db)) k of
      Some l \<Rightarrow> l | None \<Rightarrow> []) = []
   \<longleftrightarrow> \<not> (\<exists>row ws step. latest_bc_row db k = Some row \<and> bc_workstation_code row = Some ws
            \<and> bc_route_step_index row = Some step)"
proof (cases "latest_bc_row db k")
  case None
  then show ?thesis by (simp add: get_opt_past_machines)
next
  case (Some row)
  then show ?thesis
    by (cases "bc_workstation_code row"; cases "bc_route_step_index row")
       (simp_all add: get_opt_past_machines)
qed

lemma last_event_start_iff:
  "get_opt (last_event_by_wo (wo_numbers_of (db_wo_rows db)) (db_last_rows db)) k = Some ''START''
   \<longleftrightarrow> (\<exists>row. latest_last_row db k = Some row \<and> upper (or_empty (lr_event_type row)) = ''START'')"
  unfolding get_opt_def latest_last_row_def last_event_by_wo_find
  by (auto split: option.splits)

lemma order_entry_sel:
  "Past_Machines (order_entry lt lp past le wo_id base) =
     (case get_opt past (w_work_order_number base) of Some l \<Rightarrow> l | None \<Rightarrow> [])"
  "Status (order_entry lt lp past le wo_id base) =
     (if upper (strip (or_empty (w_status base))) = ''IN_PROGRESS''
         \<and> (case get_opt past (w_work_order_number base) of Some l \<Rightarrow> l | None \<Rightarrow> []) = []
      then ''NOT_STARTED'' else upper (strip (or_empty (w_status base))))"
  "Currently_Running (order_entry lt lp past le wo_id base) =
     (Status (order_entry lt lp past le wo_id base) = ''IN_PROGRESS''
      \<and> get_opt le (w_work_order_number base) = Some ''START'')"
  "Minimum_Production_Time (order_entry lt lp past le wo_id base) =
     (let min_prod_time0 = (case w_min_prod_time base of Some dt \<Rightarrow> timestamp dt | None \<Rightarrow> 0)
      in if upper (strip (or_empty (w_status base))) = ''IN_PROGRESS''
         then (case lt wo_id of Some bc_ts \<Rightarrow> bc_ts | None \<Rightarrow> min_prod_time0)
         else min_prod_time0)"
  by (simp_all add: order_entry_def Let_def)

lemma order_entry_cplex_sel:
  "Past_Machines (order_entry_cplex pt lt lp past le lc wo_id base) =
     (case get_opt past (w_work_order_number base) of Some l \<Rightarrow> l | None \<Rightarrow> [])"
  "Status (order_entry_cplex pt lt lp past le lc wo_id base) =
     (let progress0 = (if upper (or_empty (w_status base)) = [] then ''NOT_STARTED''
                       else upper (or_empty (w_status base)))
      in if progress0 = ''IN_PROGRESS''
         \<and> (case get_opt past (w_work_order_number base) of Some l \<Rightarrow> l | None \<Rightarrow> []) = []
      then ''NOT_STARTED'' else progress0)"
  "Currently_Running (order_entry_cplex pt lt lp past le lc wo_id base) =
     (Status (order_entry_cplex pt lt lp past le lc wo_id base) = ''IN_PROGRESS''
      \<and> get_opt le (w_work_order_number base) = Some ''START'')"
  "Minimum_Production_Time (order_entry_cplex pt lt lp past le lc wo_id base) =
     (let status = upper (or_empty (w_status base));
          min_prod_time1 =
           (if status = ''IN_PROGRESS''
            then (case lt wo_id of Some latest_dt \<Rightarrow> Some latest_dt | None \<Rightarrow> w_min_prod_time base)
            else w_min_prod_time base)
      in case min_prod_time1 of
              None \<Rightarrow> pt
            | Some t \<Rightarrow> if t < pt \<and> status \<noteq> ''IN_PROGRESS'' then pt else t)"
  by (simp_all add: order_entry_cplex_def Let_def)

lemma by_id_of_find:
  "by_id_of rows wo_id = find (\<lambda>d. w_id d = wo_id) (rev rows)"
  unfolding by_id_of_def
  using fold_upd_find[of "\<lambda>_. True" w_id "\<lambda>d. d" rows wo_id] by (simp add: option.map_ident)

lemma by_id_of_unique:
  assumes "base \<in> set rows"
    and "\<forall>row \<in> set rows. w_id row = w_id base \<longrightarrow> row = base"
  shows "by_id_of rows (w_id base) = Some base"
proof (cases "find (\<lambda>d. w_id d = w_id base) (rev rows)")
  case None
  then have "\<not> (\<exists>d. d \<in> set (rev rows) \<and> w_id d = w_id base)"
    by (simp add: find_None_iff)
  with assms(1) have False by auto
  then show ?thesis ..
next
  case (Some d)
  from find_SomeD[OF Some] have "d \<in> set rows" "w_id d = w_id base" by simp_all
  with assms(2) have "d = base" by blast
  with Some show ?thesis by (simp add: by_id_of_find)
qed

lemma fold_orders_complete:
  assumes "x0 \<in> set xs \<or> m0 (key b0) = Some (g x0 b0)"
    and "f x0 = Some b0"
    and "\<And>x b. x \<in> set xs \<Longrightarrow> f x = Some b \<Longrightarrow> key b = key b0 \<Longrightarrow> g x b = g x0 b0"
  shows "fold (\<lambda>x m. case f x of None \<Rightarrow> m | Some b \<Rightarrow> m(key b \<mapsto> g x b)) xs m0 (key b0)
           = Some (g x0 b0)"
  using assms(1,3)
proof (induction xs arbitrary: m0)
  case Nil
  then show ?case by simp
next
  case (Cons x xs)
  let ?m1 = "case f x of None \<Rightarrow> m0 | Some b \<Rightarrow> m0(key b \<mapsto> g x b)"
  have step: "x0 \<in> set xs \<or> ?m1 (key b0) = Some (g x0 b0)"
  proof (cases "x0 \<in> set xs")
    case True
    then show ?thesis by simp
  next
    case False
    show ?thesis
    proof (cases "f x")
      case None
      then have "x \<noteq> x0" using assms(2) by auto
      then show ?thesis using None False Cons.prems(1) by simp
    next
      case (Some b)
      show ?thesis
      proof (cases "key b = key b0")
        case True
        have "g x b = g x0 b0" by (rule Cons.prems(2)) (simp_all add: Some True)
        then show ?thesis using Some True by simp
      next
        case False
        then have "x \<noteq> x0" using assms(2) Some by auto
        then show ?thesis using Some False \<open>x0 \<notin> set xs\<close> Cons.prems(1) by simp
      qed
    qed
  qed
  have "fold (\<lambda>x m. case f x of None \<Rightarrow> m | Some b \<Rightarrow> m(key b \<mapsto> g x b)) xs ?m1 (key b0)
           = Some (g x0 b0)"
  proof (rule Cons.IH[of ?m1, OF step])
    fix y b assume "y \<in> set xs" "f y = Some b" "key b = key b0"
    then show "g y b = g x0 b0" using Cons.prems(2)[of y b] by simp
  qed
  then show ?case by simp
qed

lemma fold_by_id_complete:
  assumes "base \<in> set rows" and "w_id base \<in> set ids"
    and "\<forall>row \<in> set rows.
           (w_id row = w_id base \<or> w_work_order_number row = w_work_order_number base)
           \<longrightarrow> row = base"
  shows "fold (\<lambda>wo_id orders. case by_id_of rows wo_id of None \<Rightarrow> orders
                 | Some b \<Rightarrow> orders(w_work_order_number b \<mapsto> g wo_id b))
             ids Map.empty (w_work_order_number base) = Some (g (w_id base) base)"
proof (rule fold_orders_complete)
  show "w_id base \<in> set ids \<or> Map.empty (w_work_order_number base) = Some (g (w_id base) base)"
    using assms(2) by simp
  show "by_id_of rows (w_id base) = Some base"
    using assms(1,3) by (intro by_id_of_unique) auto
next
  fix x b
  assume "x \<in> set ids" and fb: "by_id_of rows x = Some b"
    and k: "w_work_order_number b = w_work_order_number base"
  from by_id_of_Some[OF fb] have "b \<in> set rows" "w_id b = x" by simp_all
  with k assms(3) have "b = base" by blast
  with \<open>w_id b = x\<close> show "g x b = g (w_id base) base" by simp
qed

lemma load_orders_complete:
  assumes "base \<in> set (db_wo_rows db)" and "w_id base \<in> set ids"
    and "\<forall>row \<in> set (db_wo_rows db).
           (w_id row = w_id base \<or> w_work_order_number row = w_work_order_number base)
           \<longrightarrow> row = base"
  shows "load_orders db ids pids (w_work_order_number base)
     = Some (order_entry (latest_barcode_time_by_wo_id (db_last_bc_rows db))
              (last_process_by_product pids (db_route_rows db))
              (past_machines_by_wo (wo_numbers_of (db_wo_rows db)) (db_bc_rows db))
              (last_event_by_wo (wo_numbers_of (db_wo_rows db)) (db_last_rows db))
              (w_id base) base)"
proof -
  have "ids \<noteq> []" using assms(2) by auto
  then show ?thesis
    using fold_by_id_complete[OF assms]
    by (simp add: load_orders_def Let_def)
qed

lemma load_orders_cplex_complete:
  assumes "base \<in> set (db_wo_rows db)" and "w_id base \<in> set ids"
    and "\<forall>row \<in> set (db_wo_rows db).
           (w_id row = w_id base \<or> w_work_order_number row = w_work_order_number base)
           \<longrightarrow> row = base"
  shows "load_orders_cplex db ids pids present_time (w_work_order_number base)
     = Some (order_entry_cplex present_time (latest_event_time_by_wo_id (db_last_bc_rows db))
              (last_process_by_product pids (db_route_rows db))
              (past_machines_by_wo (wo_numbers_of (db_wo_rows db)) (db_bc_rows db))
              (last_event_by_wo (wo_numbers_of (db_wo_rows db)) (db_last_rows db))
              (last_complete_qty_by_wo (wo_numbers_of (db_wo_rows db)) (db_complete_rows db))
              (w_id base) base)"
proof -
  have "ids \<noteq> []" using assms(2) by auto
  then show ?thesis
    using fold_by_id_complete[OF assms]
    by (simp add: load_orders_cplex_def Let_def)
qed

text \<open>
  C6, as stated: every eligible work order is reported with the Status derived from its
  own stored status. The output is keyed by work-order number. Of two work orders that
  share the number WO-X, the first stored as IN_PROGRESS with a past-machines trail, the
  second as NOT_STARTED, only one entry is reported, and its Status is NOT_STARTED, in both
  variants.
\<close>

theorem C6_shared_number_status:
  "w_id (db_wo_rows example_db_shared_number ! 0) = 1
   \<and> w_work_order_number (db_wo_rows example_db_shared_number ! 0) = Some ''WO-X''
   \<and> w_status (db_wo_rows example_db_shared_number ! 0) = Some ''IN_PROGRESS''
   \<and> Past_Machines (the (load_orders example_db_shared_number [1, 2] {10} (Some ''WO-X'')))
       = [''EMPTY'', ''M7'']
   \<and> Status (the (load_orders example_db_shared_number [1, 2] {10} (Some ''WO-X'')))
       = ''NOT_STARTED''
   \<and> Past_Machines (the (load_orders_cplex example_db_shared_number [1, 2] {10} 8000000000
        (Some ''WO-X''))) = [''EMPTY'', ''M7'']
   \<and> Status (the (load_orders_cplex example_db_shared_number [1, 2] {10} 8000000000
        (Some ''WO-X''))) = ''NOT_STARTED''"
  by code_simp

text \<open>
  C6, amended: for every eligible work order (stored status NOT_STARTED or IN_PROGRESS) of
  the scope whose row shares its identifier and its number with no other row, both
  variants hold an entry under its number; the entry's past-machines trail is empty
  exactly when there is no most recent scan event with a workstation and a route-step
  position; its Status is NOT_STARTED if the stored status is IN_PROGRESS and the trail is
  empty, and the stored status otherwise.
\<close>

theorem C6_status_downgrade:
  assumes "w_status base = Some ''NOT_STARTED'' \<or> w_status base = Some ''IN_PROGRESS''"
    and "base \<in> set (db_wo_rows db)" and "w_id base \<in> set ids"
    and "\<forall>row \<in> set (db_wo_rows db).
           (w_id row = w_id base \<or> w_work_order_number row = w_work_order_number base)
           \<longrightarrow> row = base"
  shows "\<exists>r r'.
      load_orders db ids pids (w_work_order_number base) = Some r
    \<and> load_orders_cplex db ids pids present_time (w_work_order_number base) = Some r'
    \<and> (Past_Machines r = [] \<longleftrightarrow>
         \<not> (\<exists>row ws step. latest_bc_row db (w_work_order_number base) = Some row
               \<and> bc_workstation_code row = Some ws \<and> bc_route_step_index row = Some step))
    \<and> Past_Machines r' = Past_Machines r
    \<and> Status r = (if w_status base = Some ''IN_PROGRESS'' \<and> Past_Machines r = []
                  then ''NOT_STARTED'' else or_empty (w_status base))
    \<and> Status r' = (if w_status base = Some ''IN_PROGRESS'' \<and> Past_Machines r' = []
                   then ''NOT_STARTED'' else or_empty (w_status base))"
proof -
  let ?r = "order_entry (latest_barcode_time_by_wo_id (db_last_bc_rows db))
              (last_process_by_product pids (db_route_rows db))
              (past_machines_by_wo (wo_numbers_of (db_wo_rows db)) (db_bc_rows db))
              (last_event_by_wo (wo_numbers_of (db_wo_rows db)) (db_last_rows db))
              (w_id base) base"
  let ?r' = "order_entry_cplex present_time (latest_event_time_by_wo_id (db_last_bc_rows db))
              (last_process_by_product pids (db_route_rows db))
              (past_machines_by_wo (wo_numbers_of (db_wo_rows db)) (db_bc_rows db))
              (last_event_by_wo (wo_numbers_of (db_wo_rows db)) (db_last_rows db))
              (last_complete_qty_by_wo (wo_numbers_of (db_wo_rows db)) (db_complete_rows db))
              (w_id base) base"
  have e: "load_orders db ids pids (w_work_order_number base) = Some ?r"
    by (rule load_orders_complete[OF assms(2,3,4)])
  have e': "load_orders_cplex db ids pids present_time (w_work_order_number base) = Some ?r'"
    by (rule load_orders_cplex_complete[OF assms(2,3,4)])
  have pm: "Past_Machines ?r = [] \<longleftrightarrow>
         \<not> (\<exists>row ws step. latest_bc_row db (w_work_order_number base) = Some row
               \<and> bc_workstation_code row = Some ws \<and> bc_route_step_index row = Some step)"
    unfolding order_entry_sel by (rule past_machines_empty_iff)
  have pm': "Past_Machines ?r' = Past_Machines ?r"
    unfolding order_entry_sel order_entry_cplex_sel ..
  from assms(1) have st: "Status ?r = (if w_status base = Some ''IN_PROGRESS'' \<and> Past_Machines ?r = []
                  then ''NOT_STARTED'' else or_empty (w_status base))"
    unfolding order_entry_sel
    by (elim disjE) (simp_all add: status_norm, simp_all add: or_empty_def)
  from assms(1) have st': "Status ?r' = (if w_status base = Some ''IN_PROGRESS'' \<and> Past_Machines ?r' = []
                  then ''NOT_STARTED'' else or_empty (w_status base))"
    unfolding order_entry_cplex_sel
    by (elim disjE) (simp_all add: status_norm, simp_all add: or_empty_def)
  show ?thesis
    apply (rule exI[of _ ?r], rule exI[of _ ?r'])
    apply (intro conjI)
    apply (fact e e' pm pm' st st')+
    done
qed

theorem C6_status_downgrade_witness:
  "(\<exists>r r'.
      load_orders example_db [1, 2, 3] {10} (Some ''WO-2'') = Some r
    \<and> load_orders_cplex example_db [1, 2, 3] {10} 8000000000 (Some ''WO-2'') = Some r'
    \<and> Past_Machines r = [] \<and> Past_Machines r' = []
    \<and> Status r = ''NOT_STARTED'' \<and> Status r' = ''NOT_STARTED'')
   \<and> (\<exists>r r'.
      load_orders example_db [1, 2, 3] {10} (Some ''WO-1'') = Some r
    \<and> load_orders_cplex example_db [1, 2, 3] {10} 8000000000 (Some ''WO-1'') = Some r'
    \<and> Past_Machines r \<noteq> [] \<and> Past_Machines r' \<noteq> []
    \<and> Status r = ''IN_PROGRESS'' \<and> Status r' = ''IN_PROGRESS'')"
proof -
  let ?b2 = "\<lparr> w_id = 2, w_work_order_number = Some ''WO-2'', w_qty_planned = Some 50,
           w_status = Some ''IN_PROGRESS'', w_so_number = Some ''SO-1'',
           w_min_prod_time = None, w_promised_delivery_utc = None,
           w_product_id = Some 10, w_product_code = Some ''P1'' \<rparr>"
  let ?b1 = "\<lparr> w_id = 1, w_work_order_number = Some ''WO-1'', w_qty_planned = Some 120,
           w_status = Some ''IN_PROGRESS'', w_so_number = Some ''SO-1'',
           w_min_prod_time = Some 1000000000, w_promised_delivery_utc = None,
           w_product_id = Some 10, w_product_code = Some ''P1'' \<rparr>"
  have s2: "w_status ?b2 = Some ''NOT_STARTED'' \<or> w_status ?b2 = Some ''IN_PROGRESS''" by simp
  have m2: "?b2 \<in> set (db_wo_rows example_db)" by (simp add: example_db_def)
  have i2: "w_id ?b2 \<in> set [1, 2, 3]" by simp
  have u2: "\<forall>row \<in> set (db_wo_rows example_db).
           (w_id row = w_id ?b2 \<or> w_work_order_number row = w_work_order_number ?b2)
           \<longrightarrow> row = ?b2" by (simp add: example_db_def)
  have l2: "latest_bc_row example_db (Some ''WO-2'') = None" by code_simp
  obtain r r' where a:
    "load_orders example_db [1, 2, 3] {10} (w_work_order_number ?b2) = Some r"
    "load_orders_cplex example_db [1, 2, 3] {10} 8000000000 (w_work_order_number ?b2) = Some r'"
    "Past_Machines r = [] \<longleftrightarrow>
         \<not> (\<exists>row ws step. latest_bc_row example_db (w_work_order_number ?b2) = Some row
               \<and> bc_workstation_code row = Some ws \<and> bc_route_step_index row = Some step)"
    "Past_Machines r' = Past_Machines r"
    "Status r = (if w_status ?b2 = Some ''IN_PROGRESS'' \<and> Past_Machines r = []
                  then ''NOT_STARTED'' else or_empty (w_status ?b2))"
    "Status r' = (if w_status ?b2 = Some ''IN_PROGRESS'' \<and> Past_Machines r' = []
                   then ''NOT_STARTED'' else or_empty (w_status ?b2))"
    using C6_status_downgrade[OF s2 m2 i2 u2, of "{10}" 8000000000]
    by blast
  have p2: "Past_Machines r = []" using a(3) l2 by simp
  have p2': "Past_Machines r' = []" using a(4) p2 by simp
  have "load_orders example_db [1, 2, 3] {10} (Some ''WO-2'') = Some r"
    and "load_orders_cplex example_db [1, 2, 3] {10} 8000000000 (Some ''WO-2'') = Some r'"
    and "Status r = ''NOT_STARTED''" and "Status r' = ''NOT_STARTED''"
    using a(1,2,5,6) p2 p2' by simp_all
  then have first: "\<exists>r r'.
      load_orders example_db [1, 2, 3] {10} (Some ''WO-2'') = Some r
    \<and> load_orders_cplex example_db [1, 2, 3] {10} 8000000000 (Some ''WO-2'') = Some r'
    \<and> Past_Machines r = [] \<and> Past_Machines r' = []
    \<and> Status r = ''NOT_STARTED'' \<and> Status r' = ''NOT_STARTED''"
    using p2 p2' by (intro exI[of _ r] exI[of _ r'] conjI)
  have s1: "w_status ?b1 = Some ''NOT_STARTED'' \<or> w_status ?b1 = Some ''IN_PROGRESS''" by simp
  have m1: "?b1 \<in> set (db_wo_rows example_db)" by (simp add: example_db_def)
  have i1: "w_id ?b1 \<in> set [1, 2, 3]" by simp
  have u1: "\<forall>row \<in> set (db_wo_rows example_db).
           (w_id row = w_id ?b1 \<or> w_work_order_number row = w_work_order_number ?b1)
           \<longrightarrow> row = ?b1" by (simp add: example_db_def)
  have l1: "latest_bc_row example_db (Some ''WO-1'')
      = Some \<lparr> bc_work_order_number = ''WO-1'', bc_workstation_code = Some ''M7'',
           bc_route_step_index = Some 2 \<rparr>" by code_simp
  obtain q q' where b:
    "load_orders example_db [1, 2, 3] {10} (w_work_order_number ?b1) = Some q"
    "load_orders_cplex example_db [1, 2, 3] {10} 8000000000 (w_work_order_number ?b1) = Some q'"
    "Past_Machines q = [] \<longleftrightarrow>
         \<not> (\<exists>row ws step. latest_bc_row example_db (w_work_order_number ?b1) = Some row
               \<and> bc_workstation_code row = Some ws \<and> bc_route_step_index row = Some step)"
    "Past_Machines q' = Past_Machines q"
    "Status q = (if w_status ?b1 = Some ''IN_PROGRESS'' \<and> Past_Machines q = []
                  then ''NOT_STARTED'' else or_empty (w_status ?b1))"
    "Status q' = (if w_status ?b1 = Some ''IN_PROGRESS'' \<and> Past_Machines q' = []
                   then ''NOT_STARTED'' else or_empty (w_status ?b1))"
    using C6_status_downgrade[OF s1 m1 i1 u1, of "{10}" 8000000000]
    by blast
  have p1: "Past_Machines q \<noteq> []" using b(3) l1 by simp
  have p1': "Past_Machines q' \<noteq> []" using b(4) p1 by simp
  have "load_orders example_db [1, 2, 3] {10} (Some ''WO-1'') = Some q"
    and "load_orders_cplex example_db [1, 2, 3] {10} 8000000000 (Some ''WO-1'') = Some q'"
    and "Status q = ''IN_PROGRESS''" and "Status q' = ''IN_PROGRESS''"
    using b(1,2,5,6) p1 p1' by (simp_all add: or_empty_def)
  then have second: "\<exists>r r'.
      load_orders example_db [1, 2, 3] {10} (Some ''WO-1'') = Some r
    \<and> load_orders_cplex example_db [1, 2, 3] {10} 8000000000 (Some ''WO-1'') = Some r'
    \<and> Past_Machines r \<noteq> [] \<and> Past_Machines r' \<noteq> []
    \<and> Status r = ''IN_PROGRESS'' \<and> Status r' = ''IN_PROGRESS''"
    using p1 p1' by (intro exI[of _ q] exI[of _ q'] conjI)
  from first second show ?thesis ..
qed

text \<open>
  C7: for every order of the output, in both variants, the Currently Running flag is true
  if and only if the derived Status is IN_PROGRESS and the most recent scan event has
  event type START (the code compares the type in upper case); so the flag is never true
  when the derived Status is not IN_PROGRESS.
\<close>

theorem C7_currently_running:
  "(load_orders db ids pids k = Some r \<longrightarrow>
      (Currently_Running r \<longleftrightarrow>
         Status r = ''IN_PROGRESS''
         \<and> (\<exists>row. latest_last_row db k = Some row \<and> upper (or_empty (lr_event_type row)) = ''START''))
      \<and> (Status r \<noteq> ''IN_PROGRESS'' \<longrightarrow> \<not> Currently_Running r))
   \<and> (load_orders_cplex db ids pids present_time k = Some r' \<longrightarrow>
      (Currently_Running r' \<longleftrightarrow>
         Status r' = ''IN_PROGRESS''
         \<and> (\<exists>row. latest_last_row db k = Some row \<and> upper (or_empty (lr_event_type row)) = ''START''))
      \<and> (Status r' \<noteq> ''IN_PROGRESS'' \<longrightarrow> \<not> Currently_Running r'))"
proof (intro conjI impI)
  assume a: "load_orders db ids pids k = Some r"
  from load_orders_sound[OF a] obtain base where b: "w_work_order_number base = k"
    and r: "r = order_entry (latest_barcode_time_by_wo_id (db_last_bc_rows db))
              (last_process_by_product pids (db_route_rows db))
              (past_machines_by_wo (wo_numbers_of (db_wo_rows db)) (db_bc_rows db))
              (last_event_by_wo (wo_numbers_of (db_wo_rows db)) (db_last_rows db))
              (w_id base) base" by blast
  show iff: "Currently_Running r \<longleftrightarrow>
         Status r = ''IN_PROGRESS''
         \<and> (\<exists>row. latest_last_row db k = Some row \<and> upper (or_empty (lr_event_type row)) = ''START'')"
    unfolding r order_entry_sel(3) b last_event_start_iff ..
  assume "Status r \<noteq> ''IN_PROGRESS''"
  then show "\<not> Currently_Running r" using iff by simp
next
  assume a: "load_orders_cplex db ids pids present_time k = Some r'"
  from load_orders_cplex_sound[OF a] obtain base where b: "w_work_order_number base = k"
    and r: "r' = order_entry_cplex present_time (latest_event_time_by_wo_id (db_last_bc_rows db))
              (last_process_by_product pids (db_route_rows db))
              (past_machines_by_wo (wo_numbers_of (db_wo_rows db)) (db_bc_rows db))
              (last_event_by_wo (wo_numbers_of (db_wo_rows db)) (db_last_rows db))
              (last_complete_qty_by_wo (wo_numbers_of (db_wo_rows db)) (db_complete_rows db))
              (w_id base) base" by blast
  show iff: "Currently_Running r' \<longleftrightarrow>
         Status r' = ''IN_PROGRESS''
         \<and> (\<exists>row. latest_last_row db k = Some row \<and> upper (or_empty (lr_event_type row)) = ''START'')"
    unfolding r order_entry_cplex_sel(3) b last_event_start_iff ..
  assume "Status r' \<noteq> ''IN_PROGRESS''"
  then show "\<not> Currently_Running r'" using iff by simp
qed

theorem C7_currently_running_witness:
  "load_orders example_db [1, 2, 3] {10} (Some ''WO-1'') \<noteq> None
   \<and> load_orders_cplex example_db [1, 2, 3] {10} 8000000000 (Some ''WO-1'') \<noteq> None
   \<and> Status (the (load_orders example_db [1, 2, 3] {10} (Some ''WO-1''))) = ''IN_PROGRESS''
   \<and> Status (the (load_orders_cplex example_db [1, 2, 3] {10} 8000000000 (Some ''WO-1''))) = ''IN_PROGRESS''
   \<and> Past_Machines (the (load_orders_cplex example_db [1, 2, 3] {10} 8000000000 (Some ''WO-1'')))
       = [''EMPTY'', ''M7'']
   \<and> Currently_Running (the (load_orders example_db [1, 2, 3] {10} (Some ''WO-1'')))
   \<and> Currently_Running (the (load_orders_cplex example_db [1, 2, 3] {10} 8000000000 (Some ''WO-1'')))
   \<and> Status (the (load_orders_cplex example_db [1, 2, 3] {10} 8000000000 (Some ''WO-3''))) \<noteq> ''IN_PROGRESS''
   \<and> \<not> Currently_Running (the (load_orders_cplex example_db [1, 2, 3] {10} 8000000000 (Some ''WO-3'')))
   \<and> Status (the (load_orders example_db [1, 2, 3] {10} (Some ''WO-2''))) \<noteq> ''IN_PROGRESS''
   \<and> \<not> Currently_Running (the (load_orders example_db [1, 2, 3] {10} (Some ''WO-2'')))"
proof -
  have n1: "load_orders example_db [1, 2, 3] {10} (Some ''WO-1'') \<noteq> None"
    and c1: "load_orders_cplex example_db [1, 2, 3] {10} 8000000000 (Some ''WO-1'') \<noteq> None"
    and n2: "load_orders example_db [1, 2, 3] {10} (Some ''WO-2'') \<noteq> None"
    and c3: "load_orders_cplex example_db [1, 2, 3] {10} 8000000000 (Some ''WO-3'') \<noteq> None"
    by code_simp+
  have s1: "Status (the (load_orders example_db [1, 2, 3] {10} (Some ''WO-1''))) = ''IN_PROGRESS''"
    and s1': "Status (the (load_orders_cplex example_db [1, 2, 3] {10} 8000000000 (Some ''WO-1'')))
       = ''IN_PROGRESS''"
    and pm: "Past_Machines (the (load_orders_cplex example_db [1, 2, 3] {10} 8000000000 (Some ''WO-1'')))
       = [''EMPTY'', ''M7'']"
    and s3: "Status (the (load_orders_cplex example_db [1, 2, 3] {10} 8000000000 (Some ''WO-3'')))
       \<noteq> ''IN_PROGRESS''"
    and s2: "Status (the (load_orders example_db [1, 2, 3] {10} (Some ''WO-2''))) \<noteq> ''IN_PROGRESS''"
    by code_simp+
  have l1: "latest_last_row example_db (Some ''WO-1'')
      = Some \<lparr> lr_work_order_number = ''WO-1'', lr_event_type = Some ''START'' \<rparr>"
    by code_simp
  have u: "upper (or_empty (lr_event_type \<lparr> lr_work_order_number = ''WO-1'', lr_event_type = Some ''START'' \<rparr>))
      = ''START''"
    by code_simp
  have ex: "\<exists>row. latest_last_row example_db (Some ''WO-1'') = Some row
      \<and> upper (or_empty (lr_event_type row)) = ''START''"
    using l1 u by blast
  from C7_currently_running[of example_db "[1, 2, 3]" "{10}" "Some ''WO-1''"
      "the (load_orders example_db [1, 2, 3] {10} (Some ''WO-1''))" 8000000000
      "the (load_orders_cplex example_db [1, 2, 3] {10} 8000000000 (Some ''WO-1''))"] n1 c1 s1 s1' ex
  have r1: "Currently_Running (the (load_orders example_db [1, 2, 3] {10} (Some ''WO-1'')))"
    and r1': "Currently_Running (the (load_orders_cplex example_db [1, 2, 3] {10} 8000000000 (Some ''WO-1'')))"
    by auto
  from C7_currently_running[of example_db "[1, 2, 3]" "{10}" "Some ''WO-3''"
      "the (load_orders example_db [1, 2, 3] {10} (Some ''WO-3''))" 8000000000
      "the (load_orders_cplex example_db [1, 2, 3] {10} 8000000000 (Some ''WO-3''))"] c3 s3
  have r3: "\<not> Currently_Running (the (load_orders_cplex example_db [1, 2, 3] {10} 8000000000 (Some ''WO-3'')))"
    by auto
  from C7_currently_running[of example_db "[1, 2, 3]" "{10}" "Some ''WO-2''"
      "the (load_orders example_db [1, 2, 3] {10} (Some ''WO-2''))" 8000000000
      "the (load_orders_cplex example_db [1, 2, 3] {10} 8000000000 (Some ''WO-2''))"] n2 s2
  have r2: "\<not> Currently_Running (the (load_orders example_db [1, 2, 3] {10} (Some ''WO-2'')))"
    by auto
  show ?thesis using n1 c1 s1 s1' pm r1 r1' s3 r3 s2 r2 by blast
qed

lemma latest_barcode_time_eq:
  "latest_barcode_time_by_wo_id (db_last_bc_rows db) wo_id
     = map_option timestamp (latest_event_time db wo_id)"
  unfolding latest_barcode_time_by_wo_id_def latest_event_time_def
  by (rule latest_time_find)

lemma latest_event_time_eq:
  "latest_event_time_by_wo_id (db_last_bc_rows db) wo_id = latest_event_time db wo_id"
  unfolding latest_event_time_by_wo_id_def latest_event_time_def
  using latest_time_find[of "\<lambda>dt. dt" "db_last_bc_rows db" wo_id]
  by (simp add: option.map_ident)

text \<open>
  C8, as stated, fails in two ways. The clamp of the timestamp variant goes by the stored
  status, not by the derived one: WO-1, stored as IN_PROGRESS with no scan event, is
  reported as NOT_STARTED and keeps its anchor of 1000 s, before the present time of
  8000 s. And the output is keyed by work-order number: of two work orders that share the
  number WO-X, the first in progress with a scan event at 5000 s, the entry reported has
  the anchor 9000 s of the second.
\<close>

theorem C8_anchor_of_downgraded_or_namesake_order:
  "Status (the (load_orders_cplex
       (example_db\<lparr> db_last_bc_rows := [], db_bc_rows := [], db_last_rows := [] \<rparr>)
       [1, 2, 3] {10} 8000000000 (Some ''WO-1''))) = ''NOT_STARTED''
   \<and> Minimum_Production_Time (the (load_orders_cplex
       (example_db\<lparr> db_last_bc_rows := [], db_bc_rows := [], db_last_rows := [] \<rparr>)
       [1, 2, 3] {10} 8000000000 (Some ''WO-1''))) = 1000000000
   \<and> w_id (db_wo_rows example_db_shared_number ! 0) = 1
   \<and> w_work_order_number (db_wo_rows example_db_shared_number ! 0) = Some ''WO-X''
   \<and> w_status (db_wo_rows example_db_shared_number ! 0) = Some ''IN_PROGRESS''
   \<and> latest_event_time example_db_shared_number 1 = Some 5000000000
   \<and> Minimum_Production_Time
       (the (load_orders example_db_shared_number [1, 2] {10} (Some ''WO-X''))) = 9000
   \<and> Minimum_Production_Time
       (the (load_orders_cplex example_db_shared_number [1, 2] {10} 8000000000 (Some ''WO-X'')))
       = 9000000000"
  by code_simp

text \<open>
  C8, amended: for every eligible work order of the scope whose row shares its identifier
  and its number with no other row, both variants hold an entry under its number, whose
  Minimum Production Time is the stored anchor, overridden by the time of the most recent
  scan event when the stored status is IN_PROGRESS and there is such an event. With no
  anchor it is epoch zero in the numeric variant and present time in the timestamp
  variant; in the timestamp variant an anchor before present time is raised to present
  time unless the stored status is IN_PROGRESS: an order stored as IN_PROGRESS keeps its
  anchor, also when its derived Status is NOT_STARTED.
\<close>

theorem C8_minimum_production_time:
  assumes "w_status base = Some ''NOT_STARTED'' \<or> w_status base = Some ''IN_PROGRESS''"
    and "base \<in> set (db_wo_rows db)" and "w_id base \<in> set ids"
    and "\<forall>row \<in> set (db_wo_rows db).
           (w_id row = w_id base \<or> w_work_order_number row = w_work_order_number base)
           \<longrightarrow> row = base"
  shows "\<exists>r r'.
      load_orders db ids pids (w_work_order_number base) = Some r
    \<and> load_orders_cplex db ids pids present_time (w_work_order_number base) = Some r'
    \<and> Minimum_Production_Time r =
         (case (if w_status base = Some ''IN_PROGRESS''
                then (case latest_event_time db (w_id base) of
                        Some t \<Rightarrow> Some t | None \<Rightarrow> w_min_prod_time base)
                else w_min_prod_time base) of
            None \<Rightarrow> 0
          | Some t \<Rightarrow> timestamp t)
    \<and> Minimum_Production_Time r' =
         (case (if w_status base = Some ''IN_PROGRESS''
                then (case latest_event_time db (w_id base) of
                        Some t \<Rightarrow> Some t | None \<Rightarrow> w_min_prod_time base)
                else w_min_prod_time base) of
            None \<Rightarrow> present_time
          | Some t \<Rightarrow> if t < present_time \<and> w_status base \<noteq> Some ''IN_PROGRESS''
                     then present_time else t)
    \<and> (w_status base = Some ''IN_PROGRESS'' \<longrightarrow>
         Minimum_Production_Time r' =
           (case latest_event_time db (w_id base) of
              Some t \<Rightarrow> t
            | None \<Rightarrow> (case w_min_prod_time base of Some t \<Rightarrow> t | None \<Rightarrow> present_time)))"
proof -
  let ?r = "order_entry (latest_barcode_time_by_wo_id (db_last_bc_rows db))
              (last_process_by_product pids (db_route_rows db))
              (past_machines_by_wo (wo_numbers_of (db_wo_rows db)) (db_bc_rows db))
              (last_event_by_wo (wo_numbers_of (db_wo_rows db)) (db_last_rows db))
              (w_id base) base"
  let ?r' = "order_entry_cplex present_time (latest_event_time_by_wo_id (db_last_bc_rows db))
              (last_process_by_product pids (db_route_rows db))
              (past_machines_by_wo (wo_numbers_of (db_wo_rows db)) (db_bc_rows db))
              (last_event_by_wo (wo_numbers_of (db_wo_rows db)) (db_last_rows db))
              (last_complete_qty_by_wo (wo_numbers_of (db_wo_rows db)) (db_complete_rows db))
              (w_id base) base"
  have e: "load_orders db ids pids (w_work_order_number base) = Some ?r"
    by (rule load_orders_complete[OF assms(2,3,4)])
  have e': "load_orders_cplex db ids pids present_time (w_work_order_number base) = Some ?r'"
    by (rule load_orders_cplex_complete[OF assms(2,3,4)])
  from assms(1) have n: "Minimum_Production_Time ?r =
         (case (if w_status base = Some ''IN_PROGRESS''
                then (case latest_event_time db (w_id base) of
                        Some t \<Rightarrow> Some t | None \<Rightarrow> w_min_prod_time base)
                else w_min_prod_time base) of
            None \<Rightarrow> 0
          | Some t \<Rightarrow> timestamp t)"
    unfolding order_entry_sel latest_barcode_time_eq
    by (elim disjE) (simp_all add: status_norm Let_def split: option.splits)
  from assms(1) have c: "Minimum_Production_Time ?r' =
         (case (if w_status base = Some ''IN_PROGRESS''
                then (case latest_event_time db (w_id base) of
                        Some t \<Rightarrow> Some t | None \<Rightarrow> w_min_prod_time base)
                else w_min_prod_time base) of
            None \<Rightarrow> present_time
          | Some t \<Rightarrow> if t < present_time \<and> w_status base \<noteq> Some ''IN_PROGRESS''
                     then present_time else t)"
    unfolding order_entry_cplex_sel latest_event_time_eq
    by (elim disjE) (simp_all add: status_norm Let_def split: option.splits)
  have k: "w_status base = Some ''IN_PROGRESS'' \<longrightarrow>
         Minimum_Production_Time ?r' =
           (case latest_event_time db (w_id base) of
              Some t \<Rightarrow> t
            | None \<Rightarrow> (case w_min_prod_time base of Some t \<Rightarrow> t | None \<Rightarrow> present_time))"
    unfolding c by (simp split: option.splits)
  show ?thesis
    apply (rule exI[of _ ?r], rule exI[of _ ?r'])
    apply (intro conjI)
    apply (fact e e' n c k)+
    done
qed

theorem C8_minimum_production_time_witness:
  "(\<exists>r r'.
      load_orders example_db [1, 2, 3] {10} (Some ''WO-1'') = Some r
    \<and> load_orders_cplex example_db [1, 2, 3] {10} 8000000000 (Some ''WO-1'') = Some r'
    \<and> Minimum_Production_Time r = 5000 \<and> Minimum_Production_Time r' = 5000000000)
   \<and> (\<exists>r r'.
      load_orders example_db [1, 2, 3] {10} (Some ''WO-3'') = Some r
    \<and> load_orders_cplex example_db [1, 2, 3] {10} 8000000000 (Some ''WO-3'') = Some r'
    \<and> Minimum_Production_Time r = 1000 \<and> Minimum_Production_Time r' = 8000000000)
   \<and> (\<exists>r r'.
      load_orders example_db [1, 2, 3] {10} (Some ''WO-2'') = Some r
    \<and> load_orders_cplex example_db [1, 2, 3] {10} 8000000000 (Some ''WO-2'') = Some r'
    \<and> Minimum_Production_Time r = 0 \<and> Minimum_Production_Time r' = 8000000000)"
proof -
  let ?b1 = "\<lparr> w_id = 1, w_work_order_number = Some ''WO-1'', w_qty_planned = Some 120,
           w_status = Some ''IN_PROGRESS'', w_so_number = Some ''SO-1'',
           w_min_prod_time = Some 1000000000, w_promised_delivery_utc = None,
           w_product_id = Some 10, w_product_code = Some ''P1'' \<rparr>"
  let ?b2 = "\<lparr> w_id = 2, w_work_order_number = Some ''WO-2'', w_qty_planned = Some 50,
           w_status = Some ''IN_PROGRESS'', w_so_number = Some ''SO-1'',
           w_min_prod_time = None, w_promised_delivery_utc = None,
           w_product_id = Some 10, w_product_code = Some ''P1'' \<rparr>"
  let ?b3 = "\<lparr> w_id = 3, w_work_order_number = Some ''WO-3'', w_qty_planned = Some 120,
           w_status = Some ''NOT_STARTED'', w_so_number = Some ''SO-2'',
           w_min_prod_time = Some 1000000000, w_promised_delivery_utc = None,
           w_product_id = Some 10, w_product_code = Some ''P1'' \<rparr>"
  have l: "latest_event_time example_db 1 = Some 5000000000"
    "latest_event_time example_db 2 = None" by code_simp+
  have s1: "w_status ?b1 = Some ''NOT_STARTED'' \<or> w_status ?b1 = Some ''IN_PROGRESS''" by simp
  have m1: "?b1 \<in> set (db_wo_rows example_db)" by (simp add: example_db_def)
  have i1: "w_id ?b1 \<in> set [1, 2, 3]" by simp
  have u1: "\<forall>row \<in> set (db_wo_rows example_db).
           (w_id row = w_id ?b1 \<or> w_work_order_number row = w_work_order_number ?b1)
           \<longrightarrow> row = ?b1" by (simp add: example_db_def)
  have first: "\<exists>r r'.
      load_orders example_db [1, 2, 3] {10} (Some ''WO-1'') = Some r
    \<and> load_orders_cplex example_db [1, 2, 3] {10} 8000000000 (Some ''WO-1'') = Some r'
    \<and> Minimum_Production_Time r = 5000 \<and> Minimum_Production_Time r' = 5000000000"
    using C8_minimum_production_time[OF s1 m1 i1 u1, of "{10}" 8000000000]
    by (simp add: l timestamp_def)
  have s3: "w_status ?b3 = Some ''NOT_STARTED'' \<or> w_status ?b3 = Some ''IN_PROGRESS''" by simp
  have m3: "?b3 \<in> set (db_wo_rows example_db)" by (simp add: example_db_def)
  have i3: "w_id ?b3 \<in> set [1, 2, 3]" by simp
  have u3: "\<forall>row \<in> set (db_wo_rows example_db).
           (w_id row = w_id ?b3 \<or> w_work_order_number row = w_work_order_number ?b3)
           \<longrightarrow> row = ?b3" by (simp add: example_db_def)
  have second: "\<exists>r r'.
      load_orders example_db [1, 2, 3] {10} (Some ''WO-3'') = Some r
    \<and> load_orders_cplex example_db [1, 2, 3] {10} 8000000000 (Some ''WO-3'') = Some r'
    \<and> Minimum_Production_Time r = 1000 \<and> Minimum_Production_Time r' = 8000000000"
    using C8_minimum_production_time[OF s3 m3 i3 u3, of "{10}" 8000000000]
    by (simp add: timestamp_def)
  have s2: "w_status ?b2 = Some ''NOT_STARTED'' \<or> w_status ?b2 = Some ''IN_PROGRESS''" by simp
  have m2: "?b2 \<in> set (db_wo_rows example_db)" by (simp add: example_db_def)
  have i2: "w_id ?b2 \<in> set [1, 2, 3]" by simp
  have u2: "\<forall>row \<in> set (db_wo_rows example_db).
           (w_id row = w_id ?b2 \<or> w_work_order_number row = w_work_order_number ?b2)
           \<longrightarrow> row = ?b2" by (simp add: example_db_def)
  have third: "\<exists>r r'.
      load_orders example_db [1, 2, 3] {10} (Some ''WO-2'') = Some r
    \<and> load_orders_cplex example_db [1, 2, 3] {10} 8000000000 (Some ''WO-2'') = Some r'
    \<and> Minimum_Production_Time r = 0 \<and> Minimum_Production_Time r' = 8000000000"
    using C8_minimum_production_time[OF s2 m2 i2 u2, of "{10}" 8000000000]
    by (simp add: l)
  from first second third show ?thesis by (intro conjI)
qed

section \<open>Downtime deriver: proofs\<close>

text \<open>
  C1, at a failing input of the numeric variant: with present time 1970-01-03T00:00Z, a
  window on M1 that started a day before and ends a day after is kept by
  \<^verbatim>\<open>load_downtimes\<close> of \<^verbatim>\<open>queries.py\<close>, whose docstring says it is skipped;
  the timestamp variant drops it.
\<close>

theorem C1_numeric_keeps_ongoing_window:
  "load_downtimes 172800000000
     [\<lparr> dr_workstation_code = Some ''M1'', dr_downtime_start = Some 86400000000,
        dr_downtime_end = Some 259200000000 \<rparr>] (Some ''M1'')
     = Some [(86400, 259200)]
   \<and> load_downtimes_cplex 172800000000 Map.empty Map.empty
     [\<lparr> dr_workstation_code = Some ''M1'', dr_downtime_start = Some 86400000000,
        dr_downtime_end = Some 259200000000 \<rparr>] [] (Some ''M1'')
     = None"
  by (simp add: load_downtimes_def load_downtimes_row_def load_downtimes_cplex_def
      load_downtimes_cplex_row_def append_running_job_downtimes_def append_window_def
      setdefault_def timestamp_def)

lemma round_half_even_bounds:
  "of_int (round_half_even x) - 1 / 2 \<le> x \<and> x \<le> of_int (round_half_even x) + 1 / 2"
proof -
  have d: "0 \<le> x - of_int \<lfloor>x\<rfloor>" "x - of_int \<lfloor>x\<rfloor> < 1" by linarith+
  consider "x - of_int \<lfloor>x\<rfloor> < 1 / 2" | "1 / 2 < x - of_int \<lfloor>x\<rfloor>" | "x - of_int \<lfloor>x\<rfloor> = 1 / 2"
    by linarith
  then show ?thesis
  proof cases
    case 1
    then have "(of_int (round_half_even x) :: rat) = of_int \<lfloor>x\<rfloor>"
      by (simp add: round_half_even_def)
    then show ?thesis using d 1 by linarith
  next
    case 2
    then have "(of_int (round_half_even x) :: rat) = of_int \<lfloor>x\<rfloor> + 1"
      by (simp add: round_half_even_def)
    then show ?thesis using d 2 by linarith
  next
    case 3
    then have "(of_int (round_half_even x) :: rat) = of_int \<lfloor>x\<rfloor>
        \<or> (of_int (round_half_even x) :: rat) = of_int \<lfloor>x\<rfloor> + 1"
      by (simp add: round_half_even_def Let_def)
    then show ?thesis using d 3 by linarith
  qed
qed

lemma round_half_even_mono:
  assumes "x \<le> y"
  shows "round_half_even x \<le> round_half_even y"
proof -
  have fx: "of_int \<lfloor>x\<rfloor> \<le> x" "x < of_int \<lfloor>x\<rfloor> + 1" by linarith+
  have fy: "of_int \<lfloor>y\<rfloor> \<le> y" "y < of_int \<lfloor>y\<rfloor> + 1" by linarith+
  have le: "\<lfloor>x\<rfloor> \<le> \<lfloor>y\<rfloor>" using assms by (rule floor_mono)
  have ux: "round_half_even x \<le> \<lfloor>x\<rfloor> + 1" and ly: "\<lfloor>y\<rfloor> \<le> round_half_even y"
    unfolding round_half_even_def Let_def by auto
  show ?thesis
  proof (cases "\<lfloor>x\<rfloor> = \<lfloor>y\<rfloor>")
    case True
    then show ?thesis
      using assms unfolding round_half_even_def Let_def by auto
  next
    case False
    then have "\<lfloor>x\<rfloor> + 1 \<le> \<lfloor>y\<rfloor>" using le by linarith
    then show ?thesis using ux ly by linarith
  qed
qed

lemma round_half_even_of_int: "round_half_even (of_int n) = n"
  unfolding round_half_even_def Let_def by simp

lemma round_half_even_nonneg: "0 \<le> x \<Longrightarrow> 0 \<le> round_half_even x"
  using round_half_even_mono[of 0 x] round_half_even_of_int[of 0] by simp

lemma row_appends:
  assumes "appends_window P orders cycle row ws remaining"
  shows "append_running_job_row P orders cycle row d =
           append_window d (Some ws) (P, P + timedelta_minutes remaining)"
proof -
  from assms obtain start step order' product ct where c:
    "upper (or_empty (ev_event_type row)) = ''START''"
    "ev_workstation_code row = Some ws" "ws \<noteq> []"
    "ev_event_time_utc row = Some start"
    "ev_route_step_index row = Some step"
    "orders (Some (ev_work_order_number row)) = Some order'"
    "Product order' = Some product"
    "cycle_lookup cycle (step - 1) product ws = Some ct"
    "remaining = Quantity order' * ct - max 0 (total_seconds (P - start) / 60)"
    "0 < remaining"
    unfolding appends_window_def by blast
  have "\<not> Quantity order' * ct \<le> max 0 (total_seconds (P - start) / 60)"
    using c(9,10) by linarith
  then show ?thesis
    unfolding append_running_job_row_def Let_def
    by (simp add: c(1-9))
qed

lemma row_skips:
  assumes "\<not> (\<exists>ws remaining. appends_window P orders cycle row ws remaining)"
  shows "append_running_job_row P orders cycle row d = d"
proof (rule ccontr)
  assume neq: "append_running_job_row P orders cycle row d \<noteq> d"
  then obtain ws start where a: "ev_workstation_code row = Some ws" "ev_event_time_utc row = Some start"
    unfolding append_running_job_row_def Let_def by (auto split: option.splits)
  from neq a have b: "upper (or_empty (ev_event_type row)) = ''START''" "ws \<noteq> []"
    unfolding append_running_job_row_def Let_def by (auto split: if_splits)
  from neq a b obtain order' where o: "orders (Some (ev_work_order_number row)) = Some order'"
    unfolding append_running_job_row_def Let_def by (auto split: option.splits)
  from neq a b o obtain product where p: "Product order' = Some product"
    unfolding append_running_job_row_def Let_def by (auto split: option.splits)
  from neq a b o p obtain step where s: "ev_route_step_index row = Some step"
    unfolding append_running_job_row_def Let_def by (auto split: option.splits)
  from neq a b o p s obtain ct where ct: "cycle_lookup cycle (step - 1) product ws = Some ct"
    unfolding append_running_job_row_def Let_def by (auto split: option.splits)
  from neq a b o p s ct
  have pos: "0 < Quantity order' * ct - max 0 (total_seconds (P - start) / 60)"
    unfolding append_running_job_row_def Let_def by (auto split: if_splits)
  have "appends_window P orders cycle row ws
          (Quantity order' * ct - max 0 (total_seconds (P - start) / 60))"
    unfolding appends_window_def using a b o p s ct pos by blast
  with assms show False by blast
qed

lemma append_running_snoc:
  "append_running_job_downtimes P orders cycle (rows @ [row]) d =
     append_running_job_row P orders cycle row (append_running_job_downtimes P orders cycle rows d)"
proof (cases "orders = Map.empty")
  case True
  have "\<not> (\<exists>ws remaining. appends_window P orders cycle row ws remaining)"
    using True by (simp add: appends_window_def)
  from row_skips[OF this] True show ?thesis
    by (simp add: append_running_job_downtimes_def)
next
  case False
  then show ?thesis by (simp add: append_running_job_downtimes_def)
qed

lemma append_running_fold:
  "append_running_job_downtimes P orders cycle rows d =
     fold (append_running_job_row P orders cycle) rows d"
proof (induction rows rule: rev_induct)
  case Nil
  show ?case by (simp add: append_running_job_downtimes_def)
next
  case (snoc x xs)
  show ?case unfolding append_running_snoc snoc.IH by simp
qed

text \<open>
  C2, as stated: a window is inferred only for orders flagged as running. Work order WO-3
  is stored as NOT_STARTED, so its Currently Running flag is false; its most recent event
  is a START on M3, 50 minutes before present time, and the timestamp variant appends the
  window from present time to present time plus 70 minutes for M3.
\<close>

theorem C2_window_for_not_running_order:
  "\<not> Currently_Running
       (the (load_orders_cplex example_db [1, 2, 3] {10} 8000000000 (Some ''WO-3'')))
   \<and> load_downtimes_cplex 8000000000
        (load_orders_cplex example_db [1, 2, 3] {10} 8000000000) example_cycle []
        [\<lparr> ev_work_order_number = ''WO-3'', ev_event_type = Some ''START'',
           ev_event_time_utc = Some 5000000000, ev_route_step_index = Some 1,
           ev_workstation_code = Some ''M3'' \<rparr>] (Some ''M3'')
      = Some [(8000000000, 12200000000)]"
proof -
  have a: "\<not> Currently_Running
       (the (load_orders_cplex example_db [1, 2, 3] {10} 8000000000 (Some ''WO-3'')))"
    by code_simp
  have "fold (append_running_job_row 8000000000
            (load_orders_cplex example_db [1, 2, 3] {10} 8000000000) example_cycle)
        [\<lparr> ev_work_order_number = ''WO-3'', ev_event_type = Some ''START'',
           ev_event_time_utc = Some 5000000000, ev_route_step_index = Some 1,
           ev_workstation_code = Some ''M3'' \<rparr>]
        (fold (load_downtimes_cplex_row 8000000000) [] Map.empty) (Some ''M3'')
      = Some [(8000000000, 12200000000)]"
    by code_simp
  then show ?thesis
    using a unfolding load_downtimes_cplex_def append_running_fold by simp
qed

text \<open>
  C2, amended: the loop appends a window for a most-recent-event row exactly when the
  event type is START (in upper case), the row has a non-empty workstation, a time and a
  route-step position, the order of its number is in the order table with a product (its
  Currently Running flag is not consulted; the table always holds a quantity for an order
  it holds), the cycle table has a time per unit for
  (position - 1, product, workstation), and quantity times that cycle time minus the
  elapsed minutes, clamped at zero, is positive. The window runs from present time to
  present time plus that remaining time, rounded to the microsecond, and is appended to
  the workstation's list; any other row leaves the table unchanged.
\<close>

theorem C2_running_job_window:
  "append_running_job_downtimes present_time orders cycle [] downtimes = downtimes
   \<and> (\<forall>ws start step order product ct.
         upper (or_empty (ev_event_type row)) = ''START''
       \<and> ev_workstation_code row = Some ws \<and> ws \<noteq> []
       \<and> ev_event_time_utc row = Some start
       \<and> ev_route_step_index row = Some step
       \<and> orders (Some (ev_work_order_number row)) = Some order
       \<and> Product order = Some product
       \<and> cycle_lookup cycle (step - 1) product ws = Some ct
       \<and> 0 < Quantity order * ct - max 0 (total_seconds (present_time - start) / 60)
       \<longrightarrow> append_running_job_downtimes present_time orders cycle (rows @ [row]) downtimes
           = append_window (append_running_job_downtimes present_time orders cycle rows downtimes)
               (Some ws)
               (present_time,
                present_time + timedelta_minutes
                  (Quantity order * ct - max 0 (total_seconds (present_time - start) / 60))))
   \<and> (\<not> (\<exists>ws start step order product ct.
         upper (or_empty (ev_event_type row)) = ''START''
       \<and> ev_workstation_code row = Some ws \<and> ws \<noteq> []
       \<and> ev_event_time_utc row = Some start
       \<and> ev_route_step_index row = Some step
       \<and> orders (Some (ev_work_order_number row)) = Some order
       \<and> Product order = Some product
       \<and> cycle_lookup cycle (step - 1) product ws = Some ct
       \<and> 0 < Quantity order * ct - max 0 (total_seconds (present_time - start) / 60))
       \<longrightarrow> append_running_job_downtimes present_time orders cycle (rows @ [row]) downtimes
           = append_running_job_downtimes present_time orders cycle rows downtimes)"
proof (intro conjI allI impI)
  show "append_running_job_downtimes present_time orders cycle [] downtimes = downtimes"
    by (simp add: append_running_fold)
next
  fix ws start step order' product ct
  assume "upper (or_empty (ev_event_type row)) = ''START''
       \<and> ev_workstation_code row = Some ws \<and> ws \<noteq> []
       \<and> ev_event_time_utc row = Some start
       \<and> ev_route_step_index row = Some step
       \<and> orders (Some (ev_work_order_number row)) = Some order'
       \<and> Product order' = Some product
       \<and> cycle_lookup cycle (step - 1) product ws = Some ct
       \<and> 0 < Quantity order' * ct - max 0 (total_seconds (present_time - start) / 60)"
  then have "appends_window present_time orders cycle row ws
      (Quantity order' * ct - max 0 (total_seconds (present_time - start) / 60))"
    unfolding appends_window_def by blast
  from row_appends[OF this]
  show "append_running_job_downtimes present_time orders cycle (rows @ [row]) downtimes
           = append_window (append_running_job_downtimes present_time orders cycle rows downtimes)
               (Some ws)
               (present_time,
                present_time + timedelta_minutes
                  (Quantity order' * ct - max 0 (total_seconds (present_time - start) / 60)))"
    unfolding append_running_snoc .
next
  assume "\<not> (\<exists>ws start step order product ct.
         upper (or_empty (ev_event_type row)) = ''START''
       \<and> ev_workstation_code row = Some ws \<and> ws \<noteq> []
       \<and> ev_event_time_utc row = Some start
       \<and> ev_route_step_index row = Some step
       \<and> orders (Some (ev_work_order_number row)) = Some order
       \<and> Product order = Some product
       \<and> cycle_lookup cycle (step - 1) product ws = Some ct
       \<and> 0 < Quantity order * ct - max 0 (total_seconds (present_time - start) / 60))"
  then have "\<not> (\<exists>ws remaining. appends_window present_time orders cycle row ws remaining)"
    unfolding appends_window_def by blast
  from row_skips[OF this]
  show "append_running_job_downtimes present_time orders cycle (rows @ [row]) downtimes
           = append_running_job_downtimes present_time orders cycle rows downtimes"
    unfolding append_running_snoc .
qed

lemma append_window_apply:
  "append_window d k' w k =
     (if k = k' then Some ((case d k' of None \<Rightarrow> [] | Some l \<Rightarrow> l) @ [w]) else d k)"
  by (simp add: append_window_def setdefault_def split: option.splits)

lemma fold_running_windows:
  "fold (append_running_job_row P orders cycle) rows d k = Some l \<Longrightarrow>
     \<exists>new. l = (case d k of None \<Rightarrow> [] | Some old \<Rightarrow> old) @ new
       \<and> (\<forall>w \<in> set new. \<exists>row \<in> set rows. \<exists>ws remaining.
             appends_window P orders cycle row ws remaining \<and> k = Some ws
             \<and> w = (P, P + timedelta_minutes remaining))"
proof (induction rows arbitrary: d)
  case Nil
  then show ?case by simp
next
  case (Cons x xs)
  let ?d1 = "append_running_job_row P orders cycle x d"
  from Cons.prems have "fold (append_running_job_row P orders cycle) xs ?d1 k = Some l" by simp
  from Cons.IH[OF this] obtain new where new:
    "l = (case ?d1 k of None \<Rightarrow> [] | Some old \<Rightarrow> old) @ new"
    "\<forall>w \<in> set new. \<exists>row \<in> set xs. \<exists>ws remaining.
        appends_window P orders cycle row ws remaining \<and> k = Some ws
        \<and> w = (P, P + timedelta_minutes remaining)" by blast
  show ?case
  proof (cases "\<exists>ws remaining. appends_window P orders cycle x ws remaining \<and> k = Some ws")
    case True
    then obtain ws remaining where a: "appends_window P orders cycle x ws remaining" "k = Some ws"
      by blast
    have "?d1 k = Some ((case d k of None \<Rightarrow> [] | Some old \<Rightarrow> old)
                   @ [(P, P + timedelta_minutes remaining)])"
      unfolding row_appends[OF a(1)] append_window_apply using a(2) by simp
    then have "l = (case d k of None \<Rightarrow> [] | Some old \<Rightarrow> old)
                   @ ((P, P + timedelta_minutes remaining) # new)"
      using new(1) by simp
    moreover have "\<forall>w \<in> set ((P, P + timedelta_minutes remaining) # new).
        \<exists>row \<in> set (x # xs). \<exists>ws remaining.
        appends_window P orders cycle row ws remaining \<and> k = Some ws
        \<and> w = (P, P + timedelta_minutes remaining)"
      using new(2) a by auto
    ultimately show ?thesis by blast
  next
    case False
    have "?d1 k = d k"
    proof (cases "\<exists>ws remaining. appends_window P orders cycle x ws remaining")
      case True
      then obtain ws remaining where a: "appends_window P orders cycle x ws remaining" by blast
      with False have "k \<noteq> Some ws" by blast
      then show ?thesis unfolding row_appends[OF a] append_window_apply by simp
    next
      case False
      from row_skips[OF this] show ?thesis by simp
    qed
    then have "l = (case d k of None \<Rightarrow> [] | Some old \<Rightarrow> old) @ new" using new(1) by simp
    moreover have "\<forall>w \<in> set new. \<exists>row \<in> set (x # xs). \<exists>ws remaining.
        appends_window P orders cycle row ws remaining \<and> k = Some ws
        \<and> w = (P, P + timedelta_minutes remaining)"
      using new(2) by auto
    ultimately show ?thesis by blast
  qed
qed

lemma timedelta_minutes_mono: "x \<le> y \<Longrightarrow> timedelta_minutes x \<le> timedelta_minutes y"
  unfolding timedelta_minutes_def by (rule round_half_even_mono) simp

lemma timedelta_minutes_nonneg: "0 \<le> x \<Longrightarrow> 0 \<le> timedelta_minutes x"
  unfolding timedelta_minutes_def by (rule round_half_even_nonneg) simp

lemma timedelta_minutes_near:
  "\<bar>of_int (timedelta_minutes x) - x * 60000000\<bar> \<le> 1 / 2"
  unfolding timedelta_minutes_def using round_half_even_bounds[of "x * 60000000"] by linarith

text \<open>
  C10, amended: every window that \<^verbatim>\<open>_append_running_job_downtimes\<close> appends starts at
  present time; its duration is the remaining time (quantity times cycle time, minus the
  elapsed minutes clamped at zero) rounded to the nearest microsecond, so it is never
  negative, is within half a microsecond of the remaining time, and is no greater than
  the expected processing time rounded likewise; a START at or after present time yields
  exactly the expected duration, rounded to the microsecond.
\<close>

theorem C10_running_window_bounds:
  assumes "append_running_job_downtimes present_time orders cycle rows downtimes k = Some l"
  shows "\<exists>new. l = (case downtimes k of None \<Rightarrow> [] | Some old \<Rightarrow> old) @ new
     \<and> (\<forall>w \<in> set new. \<exists>row \<in> set rows. \<exists>ws start step order product ct.
            k = Some ws
          \<and> ev_event_time_utc row = Some start
          \<and> ev_route_step_index row = Some step
          \<and> orders (Some (ev_work_order_number row)) = Some order
          \<and> Product order = Some product
          \<and> cycle_lookup cycle (step - 1) product ws = Some ct
          \<and> fst w = present_time
          \<and> 0 \<le> snd w - fst w
          \<and> snd w - fst w = timedelta_minutes
               (Quantity order * ct - max 0 (total_seconds (present_time - start) / 60))
          \<and> \<bar>of_int (snd w - fst w)
               - (Quantity order * ct - max 0 (total_seconds (present_time - start) / 60)) * 60000000\<bar>
              \<le> 1 / 2
          \<and> snd w - fst w \<le> timedelta_minutes (Quantity order * ct)
          \<and> (present_time \<le> start \<longrightarrow> snd w - fst w = timedelta_minutes (Quantity order * ct)))"
proof -
  from assms have "fold (append_running_job_row present_time orders cycle) rows downtimes k = Some l"
    by (simp add: append_running_fold)
  from fold_running_windows[OF this] obtain new where new:
    "l = (case downtimes k of None \<Rightarrow> [] | Some old \<Rightarrow> old) @ new"
    "\<forall>w \<in> set new. \<exists>row \<in> set rows. \<exists>ws remaining.
        appends_window present_time orders cycle row ws remaining \<and> k = Some ws
        \<and> w = (present_time, present_time + timedelta_minutes remaining)" by blast
  have win: "\<exists>row \<in> set rows. \<exists>ws start step order product ct.
            k = Some ws
          \<and> ev_event_time_utc row = Some start
          \<and> ev_route_step_index row = Some step
          \<and> orders (Some (ev_work_order_number row)) = Some order
          \<and> Product order = Some product
          \<and> cycle_lookup cycle (step - 1) product ws = Some ct
          \<and> fst w = present_time
          \<and> 0 \<le> snd w - fst w
          \<and> snd w - fst w = timedelta_minutes
               (Quantity order * ct - max 0 (total_seconds (present_time - start) / 60))
          \<and> \<bar>of_int (snd w - fst w)
               - (Quantity order * ct - max 0 (total_seconds (present_time - start) / 60)) * 60000000\<bar>
              \<le> 1 / 2
          \<and> snd w - fst w \<le> timedelta_minutes (Quantity order * ct)
          \<and> (present_time \<le> start \<longrightarrow> snd w - fst w = timedelta_minutes (Quantity order * ct))"
    if "w \<in> set new" for w
  proof -
    from new(2) that obtain row ws remaining where r: "row \<in> set rows"
      "appends_window present_time orders cycle row ws remaining" "k = Some ws"
      "w = (present_time, present_time + timedelta_minutes remaining)" by blast
    from r(2) obtain start step order' product ct where c:
      "ev_event_time_utc row = Some start"
      "ev_route_step_index row = Some step"
      "orders (Some (ev_work_order_number row)) = Some order'"
      "Product order' = Some product"
      "cycle_lookup cycle (step - 1) product ws = Some ct"
      "remaining = Quantity order' * ct - max 0 (total_seconds (present_time - start) / 60)"
      "0 < remaining"
      unfolding appends_window_def by blast
    have dur: "snd w - fst w = timedelta_minutes remaining"
      and fstw: "fst w = present_time"
      using r(4) by simp_all
    have le: "remaining \<le> Quantity order' * ct" using c(6) by simp
    have p1: "0 \<le> snd w - fst w"
      unfolding dur using c(7) by (intro timedelta_minutes_nonneg) simp
    have p2: "snd w - fst w \<le> timedelta_minutes (Quantity order' * ct)"
      unfolding dur using le by (rule timedelta_minutes_mono)
    have p3: "\<bar>of_int (snd w - fst w) - remaining * 60000000\<bar> \<le> 1 / 2"
      unfolding dur by (rule timedelta_minutes_near)
    have p4: "snd w - fst w = timedelta_minutes (Quantity order' * ct)" if "present_time \<le> start"
    proof -
      have "total_seconds (present_time - start) \<le> 0"
        using that by (simp add: total_seconds_def divide_le_0_iff)
      then have "max 0 (total_seconds (present_time - start) / 60) = 0"
        by (simp add: max_def divide_le_0_iff)
      then show ?thesis unfolding dur c(6) by simp
    qed
    note dur' = dur[unfolded c(6)] and p3' = p3[unfolded c(6)]
    show ?thesis
      apply (rule bexI[OF _ r(1)])
      apply (rule exI[of _ ws], rule exI[of _ start], rule exI[of _ step])
      apply (rule exI[of _ order'], rule exI[of _ product], rule exI[of _ ct])
      apply (intro conjI impI)
      apply (fact r(3) c(1) c(2) c(3) c(4) c(5) fstw p1 dur' p3' p2)+
      apply (erule p4)
      done
  qed
  show ?thesis
    apply (rule exI[of _ new])
    apply (rule conjI)
    apply (fact new(1))
    apply (rule ballI)
    apply (erule win)
    done
qed

theorem C2_running_job_window_witness:
  "append_running_job_downtimes 8000000000
      (load_orders_cplex example_db [1, 2, 3] {10} 8000000000) example_cycle
      [\<lparr> ev_work_order_number = ''WO-1'', ev_event_type = Some ''START'',
         ev_event_time_utc = Some 5000000000, ev_route_step_index = Some 2,
         ev_workstation_code = Some ''M7'' \<rparr>] Map.empty (Some ''M7'')
     = Some [(8000000000, 12200000000)]
   \<and> append_running_job_downtimes 8000000000
      (load_orders_cplex example_db [1, 2, 3] {10} 8000000000) example_cycle
      [\<lparr> ev_work_order_number = ''WO-1'', ev_event_type = Some ''START'',
         ev_event_time_utc = Some 5000000000, ev_route_step_index = Some 2,
         ev_workstation_code = Some ''M7'' \<rparr>,
       \<lparr> ev_work_order_number = ''WO-1'', ev_event_type = Some ''COMPLETE'',
         ev_event_time_utc = Some 5000000000, ev_route_step_index = Some 2,
         ev_workstation_code = Some ''M7'' \<rparr>] Map.empty
     = append_running_job_downtimes 8000000000
      (load_orders_cplex example_db [1, 2, 3] {10} 8000000000) example_cycle
      [\<lparr> ev_work_order_number = ''WO-1'', ev_event_type = Some ''START'',
         ev_event_time_utc = Some 5000000000, ev_route_step_index = Some 2,
         ev_workstation_code = Some ''M7'' \<rparr>] Map.empty"
proof -
  let ?orders = "load_orders_cplex example_db [1, 2, 3] {10} 8000000000"
  let ?row = "\<lparr> ev_work_order_number = ''WO-1'', ev_event_type = Some ''START'',
         ev_event_time_utc = Some 5000000000, ev_route_step_index = Some 2,
         ev_workstation_code = Some ''M7'' \<rparr>"
  let ?done = "\<lparr> ev_work_order_number = ''WO-1'', ev_event_type = Some ''COMPLETE'',
         ev_event_time_utc = Some 5000000000, ev_route_step_index = Some 2,
         ev_workstation_code = Some ''M7'' \<rparr>"
  let ?order = "the (?orders (Some ''WO-1''))"
  have ne: "?orders (Some ''WO-1'') \<noteq> None" by code_simp
  then have o: "?orders (Some (ev_work_order_number ?row)) = Some ?order" by simp
  have u: "upper (or_empty (ev_event_type ?row)) = ''START''" by code_simp
  have p: "Product ?order = Some ''P1''" by code_simp
  have q: "Quantity ?order = 120" by code_simp
  have c: "cycle_lookup example_cycle (2 - 1) ''P1'' ''M7'' = Some 1" by code_simp
  have pos: "0 < Quantity ?order * 1 - max 0 (total_seconds (8000000000 - 5000000000) / 60)"
    unfolding q by (simp add: total_seconds_def)
  have td: "timedelta_minutes (Quantity ?order * 1 - max 0 (total_seconds (8000000000 - 5000000000) / 60))
      = 4200000000"
    unfolding q by (simp add: total_seconds_def timedelta_minutes_def round_half_even_def)
  have nd: "upper (or_empty (ev_event_type ?done)) \<noteq> ''START''" by code_simp
  note thm1 = C2_running_job_window[of 8000000000 ?orders example_cycle Map.empty ?row "[]"]
  have "append_running_job_downtimes 8000000000 ?orders example_cycle ([] @ [?row]) Map.empty
      = append_window (append_running_job_downtimes 8000000000 ?orders example_cycle [] Map.empty)
          (Some ''M7'')
          (8000000000, 8000000000 + timedelta_minutes
             (Quantity ?order * 1 - max 0 (total_seconds (8000000000 - 5000000000) / 60)))"
    apply (rule thm1[THEN conjunct2, THEN conjunct1, rule_format,
          of "''M7''" 5000000000 2 ?order "''P1''" 1])
    apply (intro conjI)
    apply (fact u | fact o | fact p | fact c | fact pos | simp)+
    done
  moreover
  have "append_running_job_downtimes 8000000000 ?orders example_cycle [] Map.empty = Map.empty"
    by (rule thm1[THEN conjunct1])
  ultimately have first: "append_running_job_downtimes 8000000000 ?orders example_cycle [?row] Map.empty
      (Some ''M7'') = Some [(8000000000, 12200000000)]"
    unfolding td by (simp add: append_window_def setdefault_def)
  note thm2 = C2_running_job_window[of 8000000000 ?orders example_cycle Map.empty ?done "[?row]"]
  have "append_running_job_downtimes 8000000000 ?orders example_cycle ([?row] @ [?done]) Map.empty
      = append_running_job_downtimes 8000000000 ?orders example_cycle [?row] Map.empty"
    apply (rule thm2[THEN conjunct2, THEN conjunct2, rule_format])
    using nd apply blast
    done
  then show ?thesis using first by simp
qed

text \<open>
  C10, as stated: every inferred window has strictly positive duration. With quantity 120,
  a cycle time of 2^-40 minutes per unit and a START at present time, the remaining time is
  positive but below half a microsecond, and \<^verbatim>\<open>timedelta\<close> rounds it to zero: the
  window appended starts and ends at present time.
\<close>

theorem C10_zero_length_window:
  "append_running_job_downtimes 8000000000
      (load_orders_cplex example_db [1, 2, 3] {10} 8000000000)
      [0 \<mapsto> [''P1'' \<mapsto> [''M3'' \<mapsto> 1 / 1099511627776]]]
      [\<lparr> ev_work_order_number = ''WO-3'', ev_event_type = Some ''START'',
         ev_event_time_utc = Some 8000000000, ev_route_step_index = Some 1,
         ev_workstation_code = Some ''M3'' \<rparr>] Map.empty (Some ''M3'')
     = Some [(8000000000, 8000000000)]"
  unfolding append_running_fold by code_simp

theorem C10_running_window_bounds_witness:
  "append_running_job_downtimes 8000000000
      (load_orders_cplex example_db [1, 2, 3] {10} 8000000000) example_cycle
      [\<lparr> ev_work_order_number = ''WO-1'', ev_event_type = Some ''START'',
         ev_event_time_utc = Some 9000000000, ev_route_step_index = Some 2,
         ev_workstation_code = Some ''M7'' \<rparr>] Map.empty (Some ''M7'')
     = Some [(8000000000, 15200000000)]
   \<and> (\<exists>new. [(8000000000, 15200000000)] = [] @ new
     \<and> (\<forall>w \<in> set new. \<exists>row \<in> set
          [\<lparr> ev_work_order_number = ''WO-1'', ev_event_type = Some ''START'',
             ev_event_time_utc = Some 9000000000, ev_route_step_index = Some 2,
             ev_workstation_code = Some ''M7'' \<rparr>].
          \<exists>ws start step order product ct.
            Some ''M7'' = Some ws
          \<and> ev_event_time_utc row = Some start
          \<and> ev_route_step_index row = Some step
          \<and> load_orders_cplex example_db [1, 2, 3] {10} 8000000000 (Some (ev_work_order_number row))
              = Some order
          \<and> Product order = Some product
          \<and> cycle_lookup example_cycle (step - 1) product ws = Some ct
          \<and> fst w = 8000000000
          \<and> 0 \<le> snd w - fst w
          \<and> snd w - fst w = timedelta_minutes
               (Quantity order * ct - max 0 (total_seconds (8000000000 - start) / 60))
          \<and> \<bar>of_int (snd w - fst w)
               - (Quantity order * ct - max 0 (total_seconds (8000000000 - start) / 60)) * 60000000\<bar>
              \<le> 1 / 2
          \<and> snd w - fst w \<le> timedelta_minutes (Quantity order * ct)
          \<and> (8000000000 \<le> start \<longrightarrow> snd w - fst w = timedelta_minutes (Quantity order * ct))))"
proof -
  have ev: "append_running_job_downtimes 8000000000
      (load_orders_cplex example_db [1, 2, 3] {10} 8000000000) example_cycle
      [\<lparr> ev_work_order_number = ''WO-1'', ev_event_type = Some ''START'',
         ev_event_time_utc = Some 9000000000, ev_route_step_index = Some 2,
         ev_workstation_code = Some ''M7'' \<rparr>] Map.empty (Some ''M7'')
     = Some [(8000000000, 15200000000)]"
    unfolding append_running_fold by code_simp
  from C10_running_window_bounds[OF ev] show ?thesis using ev by simp
qed

lemma explicit_windows_future_step:
  assumes "\<forall>k l. d k = Some l \<longrightarrow> (\<forall>w \<in> set l. P \<le> fst w \<and> P \<le> snd w)"
  shows "\<forall>k l. load_downtimes_cplex_row P row d k = Some l \<longrightarrow> (\<forall>w \<in> set l. P \<le> fst w \<and> P \<le> snd w)"
proof (intro allI impI)
  fix k l assume a: "load_downtimes_cplex_row P row d k = Some l"
  show "\<forall>w \<in> set l. P \<le> fst w \<and> P \<le> snd w"
  proof (cases "load_downtimes_cplex_row P row d = d")
    case True
    then show ?thesis using a assms by simp
  next
    case False
    then obtain s e where se: "dr_downtime_start row = Some s" "dr_downtime_end row = Some e"
      "\<not> e < P" "\<not> s < P"
      and eq: "load_downtimes_cplex_row P row d = append_window d (dr_workstation_code row) (s, e)"
      unfolding load_downtimes_cplex_row_def by (auto split: option.splits if_splits)
    show ?thesis
    proof (cases "k = dr_workstation_code row")
      case True
      then have "l = (case d k of None \<Rightarrow> [] | Some l \<Rightarrow> l) @ [(s, e)]"
        using a unfolding eq append_window_apply by simp
      moreover have "\<forall>w \<in> set (case d k of None \<Rightarrow> [] | Some l \<Rightarrow> l). P \<le> fst w \<and> P \<le> snd w"
        using assms by (cases "d k") auto
      ultimately show ?thesis using se(3,4) by auto
    next
      case False
      then have "d k = Some l" using a unfolding eq append_window_apply by simp
      then show ?thesis using assms by blast
    qed
  qed
qed

lemma explicit_windows_future:
  assumes "\<forall>k l. d k = Some l \<longrightarrow> (\<forall>w \<in> set l. P \<le> fst w \<and> P \<le> snd w)"
  shows "\<forall>k l. fold (load_downtimes_cplex_row P) rows d k = Some l
            \<longrightarrow> (\<forall>w \<in> set l. P \<le> fst w \<and> P \<le> snd w)"
  using assms
proof (induction rows arbitrary: d)
  case Nil
  then show ?case by simp
next
  case (Cons row rows)
  from explicit_windows_future_step[OF Cons.prems]
  have "\<forall>k l. load_downtimes_cplex_row P row d k = Some l
          \<longrightarrow> (\<forall>w \<in> set l. P \<le> fst w \<and> P \<le> snd w)" .
  from Cons.IH[OF this] show ?case by simp
qed

lemma load_downtimes_cplex_explicit_future:
  "fold (load_downtimes_cplex_row P) rows Map.empty k = Some l \<Longrightarrow> w \<in> set l
     \<Longrightarrow> P \<le> fst w \<and> P \<le> snd w"
  using explicit_windows_future[of Map.empty P rows] by simp

end
